theory Spec2Isabelle
  imports Main "HOL-Library.Word" "HOL-Library.Product_Lexorder"
begin

unbundle bit_operations_syntax

section \<open>Basic types\<close>

text \<open>
  Go's \<open>byte\<close>, \<open>uint32\<close>, \<open>int64\<close>/\<open>uint64\<close> and the 32-byte \<open>common.Hash\<close> are
  words; signed and unsigned 64-bit values share the representation and differ in how they
  are read (\<open>sint\<close> / \<open>unat\<close>). A \<open>*big.Int\<close> is an \<open>int\<close>.
\<close>

type_synonym byte = "8 word"
type_synonym uint32 = "32 word"
type_synonym int64 = "64 word"
type_synonym uint64 = "64 word"
type_synonym hash = "256 word"

text \<open>
  Errors are values. \<open>EOF\<close> is \<open>io.EOF\<close>; \<open>ErrSyntax\<close> and \<open>ErrRange\<close> are the two
  errors of \<open>strconv\<close>; \<open>Err msg\<close> stands for any other error (an RPC failure, or one made
  with \<open>logex.NewErrorf\<close>). \<open>logex.Trace\<close> only decorates an error and is the identity here.
\<close>

datatype error = EOF | ErrSyntax | ErrRange | Err string

text \<open>
  A Go function that can panic: on an out-of-range index or slice, on a \<open>nil\<close>
  dereference, or in a call that panics.
\<close>

datatype 'a outcome = Panics | Returns 'a

section \<open>The checkpoint record: \<open>GetBlock\<close> and \<open>SaveBlock\<close>\<close>

text \<open>
  The offset file is its byte content. \<open>ReadAt\<close> with a buffer of \<open>len\<close> bytes returns the
  bytes read and \<open>io.EOF\<close> when fewer than \<open>len\<close> were there. \<open>WriteAt\<close> overwrites in
  place: bytes of the file beyond the written range stay as they were (the file is never
  truncated), and a write beyond the end pads with zeros. A write can fail: \<open>fault\<close> is
  what the device does to this write, \<open>None\<close> when it writes everything and
  \<open>Some (k, e)\<close> when it writes only the first \<open>k\<close> bytes and reports the error \<open>e\<close>.
\<close>

type_synonym offset_file = "byte list"

definition ReadAt :: "offset_file \<Rightarrow> nat \<Rightarrow> nat \<Rightarrow> byte list \<times> error option" where
  "ReadAt f len off =
     (let bs = take len (drop off f)
      in (bs, if length bs < len then Some EOF else None))"

definition overwrite :: "offset_file \<Rightarrow> byte list \<Rightarrow> nat \<Rightarrow> offset_file" where
  "overwrite f bs off =
     take off f @ replicate (off - length f) 0 @ bs @ drop (off + length bs) f"

definition WriteAt ::
  "offset_file \<Rightarrow> byte list \<Rightarrow> nat \<Rightarrow> (nat \<times> error) option
   \<Rightarrow> offset_file \<times> error option" where
  "WriteAt f bs off fault =
     (case fault of
        None \<Rightarrow> (overwrite f bs off, None)
      | Some (k, e) \<Rightarrow> (overwrite f (take k bs) off, Some e))"

text \<open>\<open>bytes.Trim(s, cutset)\<close>: strip leading, then trailing, bytes that are in the cutset.\<close>

definition Trim :: "byte list \<Rightarrow> byte list \<Rightarrow> byte list" where
  "Trim s cutset =
     rev (dropWhile (\<lambda>b. b \<in> set cutset) (rev (dropWhile (\<lambda>b. b \<in> set cutset) s)))"

text \<open>The cutset \<open>"\x00\r\n "\<close> of \<open>GetBlock\<close>.\<close>

definition cutset :: "byte list" where
  "cutset = [0, 13, 10, 32]"

text \<open>
  \<open>strconv.ParseUint(s, 10, 64)\<close>: the loop over the bytes, with its accumulator. A byte
  that is not a decimal digit is a syntax error; \<open>cutoff\<close> is \<open>maxUint64/10 + 1\<close>, and an
  accumulator that reaches it, or a sum beyond \<open>maxUint64\<close>, is a range error.
\<close>

definition maxUint64 :: nat where
  "maxUint64 = 2 ^ 64 - 1"

fun ParseUint_loop :: "nat \<Rightarrow> byte list \<Rightarrow> error + nat" where
  "ParseUint_loop n [] = Inr n"
| "ParseUint_loop n (c # cs) =
     (if 48 \<le> c \<and> c \<le> 57 then
        (if n \<ge> maxUint64 div 10 + 1 then Inl ErrRange
         else let n1 = n * 10 + unat (c - 48)
              in if n1 > maxUint64 then Inl ErrRange else ParseUint_loop n1 cs)
      else Inl ErrSyntax)"

definition ParseUint :: "byte list \<Rightarrow> error + nat" where
  "ParseUint s = (if s = [] then Inl ErrSyntax else ParseUint_loop 0 s)"

text \<open>
  \<open>strconv.ParseInt(s, 10, 64)\<close>: an optional sign, then \<open>ParseUint\<close>, then the range
  check against \<open>1 << 63\<close>.
\<close>

definition ParseInt :: "byte list \<Rightarrow> error + int64" where
  "ParseInt s =
     (if s = [] then Inl ErrSyntax
      else let neg = (hd s = 45);
               s' = (if hd s = 43 \<or> hd s = 45 then tl s else s)
           in case ParseUint s' of
                Inl e \<Rightarrow> Inl e
              | Inr un \<Rightarrow>
                  if \<not> neg \<and> un \<ge> 2 ^ 63 then Inl ErrRange
                  else if neg \<and> un > 2 ^ 63 then Inl ErrRange
                  else Inr (if neg then - of_nat un else of_nat un))"

text \<open>\<open>strconv.FormatUint(n, 10)\<close>: the decimal digits, most significant first.\<close>

function FormatUint_nat :: "nat \<Rightarrow> byte list" where
  "FormatUint_nat n =
     (if n < 10 then [48 + of_nat n]
      else FormatUint_nat (n div 10) @ [48 + of_nat (n mod 10)])"
  by pat_completeness auto
termination
  by (relation "measure id") auto

declare FormatUint_nat.simps [simp del]

definition FormatUint :: "uint64 \<Rightarrow> byte list" where
  "FormatUint n = FormatUint_nat (unat n)"

text \<open>
  \<open>GetBlock\<close> (the operator with the offset file): read up to 16 bytes at offset 0; nothing
  read and \<open>io.EOF\<close> is block 0; otherwise trim and parse. \<open>GetBlock_of\<close> is the body after
  the read, so that the branch for a read error other than \<open>io.EOF\<close> is part of the model.
  (Nothing read and no error does not occur: \<open>ReadAt\<close> reports an error whenever it reads
  fewer bytes than the buffer holds; \<open>logex.Trace\<close> of no error is no error.)
\<close>

definition GetBlock_of :: "byte list \<times> error option \<Rightarrow> error + uint64" where
  "GetBlock_of r =
     (let data = fst r; err = snd r; n = length data
      in if n = 0 then
           (case err of
              None \<Rightarrow> Inr 0
            | Some e \<Rightarrow> if e = EOF then Inr 0 else Inl e)
         else case ParseInt (Trim (take n data) cutset) of
                Inl e \<Rightarrow> Inl e
              | Inr number \<Rightarrow> Inr number)"

definition GetBlock :: "offset_file \<Rightarrow> error + uint64" where
  "GetBlock offset = GetBlock_of (ReadAt offset 16 0)"

text \<open>
  \<open>SaveBlock\<close>: write the decimal text at offset 0; the result is the file after the
  write and the error \<open>SaveBlock\<close> returns, which is \<open>WriteAt\<close>'s.
\<close>

definition SaveBlock ::
  "offset_file \<Rightarrow> uint64 \<Rightarrow> (nat \<times> error) option \<Rightarrow> offset_file \<times> error option" where
  "SaveBlock offset n fault = WriteAt offset (FormatUint n) 0 fault"

section \<open>Chain data, proofs and state headers\<close>

text \<open>
  A Go byte slice has a length and a capacity: \<open>elems\<close> are its elements and \<open>spare\<close>
  the bytes of its backing array between its length and its capacity. \<open>s[i]\<close> panics
  unless \<open>i < len(s)\<close>, and \<open>s[lo:]\<close> unless \<open>lo \<le> len(s)\<close>; \<open>s[lo:hi]\<close> panics unless
  \<open>lo \<le> hi \<le> cap(s)\<close>, so it can reach beyond the length into the spare bytes. A
  slice that is only indexed or re-sliced from a lower bound is a list.
\<close>

datatype bytes = Bytes (elems: "byte list") (spare: "byte list")

definition cap :: "bytes \<Rightarrow> nat" where
  "cap s = length (elems s) + length (spare s)"

definition slice_of :: "bytes \<Rightarrow> nat \<Rightarrow> nat \<Rightarrow> bytes outcome" where
  "slice_of s lo hi =
     (if lo \<le> hi \<and> hi \<le> cap s
      then Returns (Bytes (take (hi - lo) (drop lo (elems s @ spare s)))
                          (drop hi (elems s @ spare s)))
      else Panics)"

definition slice_from :: "bytes \<Rightarrow> nat \<Rightarrow> bytes outcome" where
  "slice_from s lo =
     (if lo \<le> length (elems s) then Returns (Bytes (drop lo (elems s)) (spare s)) else Panics)"

definition index :: "'a list \<Rightarrow> nat \<Rightarrow> 'a outcome" where
  "index s i = (if i < length s then Returns (s ! i) else Panics)"

text \<open>
  The fields of \<open>types.Header\<close> and \<open>types.Log\<close> that the operator reads, the proof of
  execution returned by the prover, and the messages sent to the aggregator.
\<close>

record Header =
  Number :: int
  Root :: hash

record Log =
  BlockNumber :: uint64
  Index :: nat
  TxHash :: hash
  Topics :: "hash list"
  Data :: bytes

record Poe =
  BatchHash :: hash
  NewStateRoot :: hash
  PrevStateRoot :: hash

record PoeResponse =
  Poe :: Poe
  BatchId :: uint64
  StartBlock :: uint64
  EndBlock :: uint64

record Metadata =
  Metadata_BatchId :: uint64
  Metadata_StartBlock :: uint64
  Metadata_EndBlock :: uint64

type_synonym signature = "byte list"

record StateHeader =
  Identifier :: int
  Metadata :: "byte list"
  State :: "byte list"
  QuorumNumbers :: "byte list"
  QuorumThresholdPercentages :: "byte list"
  ReferenceBlockNumber :: uint32

record TaskRequest =
  Task :: StateHeader
  Signature :: signature
  OperatorId :: hash

record StateHeaderRequest =
  Request_StateHeader :: StateHeader
  Request_Signature :: signature
  Request_Pubkey :: "byte list"
  Request_OperatorId :: hash

text \<open>
  What a handler does besides returning: it builds a state header, signs a digest, and
  calls the aggregator (\<open>SubmitTask\<close>, or \<open>SubmitStateHeader\<close> in the operator of
  \<open>operator/operator.go\<close>).
\<close>

datatype effect =
    Built StateHeader
  | Signed hash
  | SubmitTask TaskRequest
  | SubmitStateHeader StateHeaderRequest

text \<open>\<open>binary.BigEndian.Uint64\<close> of an 8-byte slice, and \<open>big.Int.SetBytes\<close>.\<close>

definition BigEndian_Uint64 :: "byte list \<Rightarrow> uint64" where
  "BigEndian_Uint64 b = foldl (\<lambda>acc x. push_bit 8 acc OR ucast x) 0 (take 8 b)"

definition SetBytes :: "byte list \<Rightarrow> int" where
  "SetBytes b = foldl (\<lambda>acc x. acc * 256 + uint x) 0 b"

text \<open>\<open>big.Int.Int64\<close>: the low 64 bits.\<close>

definition Int64 :: "int \<Rightarrow> int64" where
  "Int64 x = word_of_int x"

section \<open>The operator with proof retrieval modes (\<open>Operator\<close>)\<close>

text \<open>
  The operator's configuration and the answers of its collaborators: the chain client
  (\<open>cfg.Client\<close>), the task fetcher's source chain, the ABI decoder (which yields the
  \<open>_chunks\<close> argument of \<open>commitBatch\<close>), the prover, JSON, the header's \<open>Pack\<close> and
  \<open>Digest\<close>, the BLS key and the aggregator.
\<close>

record Operator =
  cfg_Simulation :: bool
  cfg_Identifier :: int64
  quorumNumbers :: "byte list"
  operatorId :: hash
  Client_HeaderByNumber :: "error + Header"
  source_TransactionByHash :: "hash \<Rightarrow> error + byte list"
  source_HeaderByNumber :: "int64 \<Rightarrow> error + Header"
  Inputs_Unpack :: "byte list \<Rightarrow> error + bytes list"
  proverClient_GetPoe :: "hash \<Rightarrow> PoeResponse option \<times> bool \<times> error option"
  json_Marshal :: "Metadata \<Rightarrow> error + byte list"
  Pack :: "Poe \<Rightarrow> byte list"
  Digest :: "StateHeader \<Rightarrow> error + hash"
  SignMessage :: "hash \<Rightarrow> signature"
  aggregator_SubmitTask :: "TaskRequest \<Rightarrow> error option"

text \<open>
  The two loops of \<open>proverGetPoe\<close> over the chunks: the state is \<open>(startBlock, endBlock)\<close>;
  each block number goes to \<open>startBlock\<close> while that is still 0, and to \<open>endBlock\<close>
  otherwise. \<open>chunk[0]\<close> is the count; record \<open>i\<close> is \<open>chunk[1:][i*60 : i*60+8]\<close>,
  which is checked against the capacity of \<open>chunk[1:]\<close>: the decoder hands out the
  chunks with whatever capacity it left them.
\<close>

definition block_step :: "int64 \<times> int64 \<Rightarrow> int64 \<Rightarrow> int64 \<times> int64" where
  "block_step st blockNumber =
     (if fst st = 0 then (blockNumber, snd st) else (fst st, blockNumber))"

definition chunk_loop :: "int64 \<times> int64 \<Rightarrow> bytes \<Rightarrow> (int64 \<times> int64) outcome" where
  "chunk_loop st chunk =
     (case index (elems chunk) 0 of
        Panics \<Rightarrow> Panics
      | Returns count \<Rightarrow>
          foldl (\<lambda>acc i. case acc of
                   Panics \<Rightarrow> Panics
                 | Returns st' \<Rightarrow>
                     (case slice_from chunk 1 of
                        Panics \<Rightarrow> Panics
                      | Returns records \<Rightarrow>
                          (case slice_of records (i * 60) (i * 60 + 8) of
                             Panics \<Rightarrow> Panics
                           | Returns b \<Rightarrow>
                               Returns (block_step st' (BigEndian_Uint64 (elems b))))))
                (Returns st) [0..<unat count])"

definition block_range :: "bytes list \<Rightarrow> (int64 \<times> int64) outcome" where
  "block_range chunks =
     foldl (\<lambda>acc chunk. case acc of Panics \<Rightarrow> Panics | Returns st \<Rightarrow> chunk_loop st chunk)
           (Returns (0, 0)) chunks"

text \<open>
  \<open>proverGetPoe\<close>: the result is Go's triple \<open>(*PoeResponse, skip, error)\<close>. In simulation
  mode the range comes from the call data and the roots from the two headers; otherwise
  the prover is asked, and its \<open>skip\<close> flag is passed on also beside an error.
\<close>

definition proverGetPoe ::
  "Operator \<Rightarrow> hash \<Rightarrow> hash list \<Rightarrow> (PoeResponse option \<times> bool \<times> error option) outcome" where
  "proverGetPoe o' txHash topics =
     (if cfg_Simulation o' then
        (case source_TransactionByHash o' txHash of
           Inl e \<Rightarrow> Returns (None, False, Some e)
         | Inr txData \<Rightarrow>
             if length txData < 4 then Panics
             else case Inputs_Unpack o' (drop 4 txData) of
                 Inl e \<Rightarrow> Returns (None, False, Some e)
               | Inr chunks \<Rightarrow>
                   (case block_range chunks of
                      Panics \<Rightarrow> Panics
                    | Returns (startBlock, endBlock) \<Rightarrow>
                        (case source_HeaderByNumber o' startBlock of
                           Inl e \<Rightarrow> Returns (None, False, Some e)
                         | Inr startBlockHeader \<Rightarrow>
                             (case source_HeaderByNumber o' endBlock of
                                Inl e \<Rightarrow> Returns (None, False, Some e)
                              | Inr endBlockHeader \<Rightarrow>
                                  (case index topics 2 of
                                     Panics \<Rightarrow> Panics
                                   | Returns batchHash \<Rightarrow>
                                       Returns
                                         (Some \<lparr>Poe = \<lparr>BatchHash = batchHash,
                                                       NewStateRoot = Root endBlockHeader,
                                                       PrevStateRoot = Root startBlockHeader\<rparr>,
                                                 BatchId = 0,
                                                 StartBlock = startBlock,
                                                 EndBlock = endBlock\<rparr>,
                                          False, None))))))
      else
        (case index topics 2 of
           Panics \<Rightarrow> Panics
         | Returns _ \<Rightarrow>
             (case proverClient_GetPoe o' txHash of
                (poe, skip, err) \<Rightarrow>
                  (case err of
                     Some e \<Rightarrow> Returns (None, skip, Some e)
                   | None \<Rightarrow> Returns (poe, skip, None)))))"

text \<open>
  \<open>OnNewLog\<close>: the result is the returned error and the effects, in order. A \<open>nil\<close>
  response that is neither an error nor a skip is dereferenced, which panics.
\<close>

definition OnNewLog :: "Operator \<Rightarrow> Log \<Rightarrow> (error option \<times> effect list) outcome" where
  "OnNewLog o' log =
     (case Client_HeaderByNumber o' of
        Inl e \<Rightarrow> Returns (Some e, [])
      | Inr blockHeader \<Rightarrow>
          (case proverGetPoe o' (TxHash log) (Topics log) of
             Panics \<Rightarrow> Panics
           | Returns (poe, skip, err) \<Rightarrow>
               (case err of
                  Some e \<Rightarrow> Returns (Some e, [])
                | None \<Rightarrow>
                    if skip then Returns (None, [])
                    else case poe of
                        None \<Rightarrow> Panics
                      | Some poe \<Rightarrow>
                          (let md = \<lparr>Metadata_BatchId = BatchId poe,
                                     Metadata_StartBlock = StartBlock poe,
                                     Metadata_EndBlock = EndBlock poe\<rparr>
                           in case json_Marshal o' md of
                                Inl e \<Rightarrow> Returns (Some e, [])
                              | Inr mdBytes \<Rightarrow>
                                  (let stateHeader =
                                         \<lparr>Identifier = sint (cfg_Identifier o'),
                                          Metadata = mdBytes,
                                          State = Pack o' (Poe poe),
                                          QuorumNumbers = quorumNumbers o',
                                          QuorumThresholdPercentages = [0],
                                          ReferenceBlockNumber =
                                            ucast (Int64 (Number blockHeader) - 1)\<rparr>
                                   in case Digest o' stateHeader of
                                        Inl e \<Rightarrow> Returns (Some e, [Built stateHeader])
                                      | Inr digest \<Rightarrow>
                                          (let sig = SignMessage o' digest;
                                               req = \<lparr>Task = stateHeader, Signature = sig,
                                                      OperatorId = operatorId o'\<rparr>;
                                               effects = [Built stateHeader, Signed digest,
                                                          SubmitTask req]
                                           in case aggregator_SubmitTask o' req of
                                                Some e \<Rightarrow> Returns (Some e, effects)
                                              | None \<Rightarrow> Returns (None, effects)))))))"

section \<open>The operator of \<open>operator/operator.go\<close> (\<open>Operator_legacy\<close>)\<close>

text \<open>
  This operator has no offset file: \<open>GetBlock\<close> returns \<open>(0, nil)\<close> and \<open>SaveBlock\<close>
  returns \<open>nil\<close>. Its prover is asked by block number and returns a proof or an error.
  The prover, the BLS key and the aggregator client are taken as given: what their calls
  answer is part of the record. The \<open>NewOperator\<close> of that file leaves the aggregator
  client unset, so the call on it is one that may panic.
\<close>

record Operator_legacy =
  legacy_operatorId :: hash
  legacy_PubKey_Serialize :: "byte list"
  legacy_GetPoe :: "uint64 \<Rightarrow> error + Poe"
  legacy_Pack :: "Poe \<Rightarrow> byte list"
  legacy_Digest :: "StateHeader \<Rightarrow> error + hash"
  legacy_SignMessage :: "hash \<Rightarrow> signature"
  legacy_SubmitStateHeader :: "StateHeaderRequest \<Rightarrow> error option outcome"

definition GetBlock_legacy :: "Operator_legacy \<Rightarrow> error + uint64" where
  "GetBlock_legacy o' = Inr 0"

definition SaveBlock_legacy :: "Operator_legacy \<Rightarrow> uint64 \<Rightarrow> error option" where
  "SaveBlock_legacy o' n = None"

definition OnNewLog_legacy ::
  "Operator_legacy \<Rightarrow> Log \<Rightarrow> (error option \<times> effect list) outcome" where
  "OnNewLog_legacy o' log =
     (case slice_of (Data log) 0 32 of
        Panics \<Rightarrow> Panics
      | Returns b \<Rightarrow>
          (let blockNumber = SetBytes (elems b)
           in case legacy_GetPoe o' (Int64 blockNumber) of
                Inl e \<Rightarrow> Returns (Some e, [])
              | Inr poe \<Rightarrow>
                  (let stateHeader =
                         \<lparr>Identifier = 1,
                          Metadata = [],
                          State = legacy_Pack o' poe,
                          QuorumNumbers = [0],
                          QuorumThresholdPercentages = [0],
                          ReferenceBlockNumber = 0\<rparr>
                   in case legacy_Digest o' stateHeader of
                        Inl e \<Rightarrow> Returns (Some e, [Built stateHeader])
                      | Inr digest \<Rightarrow>
                          (let sig = legacy_SignMessage o' digest;
                               pubkey = legacy_PubKey_Serialize o';
                               req = \<lparr>Request_StateHeader = stateHeader,
                                      Request_Signature = sig,
                                      Request_Pubkey = pubkey,
                                      Request_OperatorId = legacy_operatorId o'\<rparr>;
                               effects = [Built stateHeader, Signed digest,
                                          SubmitStateHeader req]
                           in case legacy_SubmitStateHeader o' req of
                                Panics \<Rightarrow> Panics
                              | Returns None \<Rightarrow> Returns (None, effects)
                              | Returns (Some e) \<Rightarrow> Returns (Some e, effects)))))"

section \<open>Attestation registration and renewal\<close>

text \<open>
  The calls a startup or a renewal makes, the sleeps and the logged errors, in order.
  \<open>Sleep d\<close> is \<open>time.Sleep(d)\<close> with \<open>d\<close> a \<open>time.Duration\<close>, an \<open>int64\<close> of
  nanoseconds; a duration that is not positive returns at once.
\<close>

datatype event =
    Simulation_called
  | IsOperatorRegistered_called
  | RegisterAsOperator_called
  | RegisterOperatorInQuorum_called
  | VerifyLivenessProof_called
  | IsProverRegistered_called
  | SubmitLivenessProof_called "byte list"
  | Register_called "byte list"
  | WaitTx_called hash
  | AttestValiditySeconds_called
  | AttestedProvers_called
  | Sleep int64
  | LogError error
  | go_renewal_loop
  | metrics_Start
  | taskFetcher_Run

text \<open>
  The answers of the attestation collaborators during one pass: the prover (or the
  simulated quote), the attestation chain client, the transactor, the liveness verifier
  contract and the clock.
\<close>

record Attestation =
  att_Simulation :: bool
  PubKey_Serialize :: "byte list"
  generateSimulationQuote :: "byte list \<Rightarrow> error + byte list"
  GenerateAttestaionReport :: "byte list \<Rightarrow> error + byte list"
  ChainID :: "error + int"
  NewKeyedTransactorWithChainID :: "int \<Rightarrow> error option"
  SubmitLivenessProof :: "byte list \<Rightarrow> error + hash"
  WaitTx :: "hash \<Rightarrow> error option"
  VerifyLivenessProof :: "error + bool"
  AttestValiditySeconds :: "error + int"
  AttestedProvers_Time :: "error + int"
  time_Now_Unix :: int64

definition proverGetAttestationReport :: "Attestation \<Rightarrow> byte list \<Rightarrow> error + byte list" where
  "proverGetAttestationReport a pubkey =
     (if att_Simulation a then generateSimulationQuote a pubkey
      else GenerateAttestaionReport a pubkey)"

definition registerAttestationReport :: "Attestation \<Rightarrow> byte list \<Rightarrow> error option \<times> event list" where
  "registerAttestationReport a pubkeyBytes =
     (case proverGetAttestationReport a pubkeyBytes of
        Inl e \<Rightarrow> (Some e, [])
      | Inr report \<Rightarrow>
          (case ChainID a of
             Inl e \<Rightarrow> (Some e, [])
           | Inr chainId \<Rightarrow>
               (case NewKeyedTransactorWithChainID a chainId of
                  Some e \<Rightarrow> (Some e, [])
                | None \<Rightarrow>
                    (case SubmitLivenessProof a report of
                       Inl e \<Rightarrow> (Some e, [SubmitLivenessProof_called report])
                     | Inr tx \<Rightarrow>
                         (case WaitTx a tx of
                            Some e \<Rightarrow>
                              (Some e, [SubmitLivenessProof_called report, WaitTx_called tx])
                          | None \<Rightarrow>
                              (None, [SubmitLivenessProof_called report, WaitTx_called tx]))))))"

text \<open>
  The wait of \<open>checkNext\<close>: \<open>if deadline > now+300 { time.Sleep(time.Duration(deadline-now-300)
  * time.Second) }\<close>, on \<open>int64\<close> values, with \<open>time.Second\<close> = 1000000000.
\<close>

definition renewal_sleep :: "int64 \<Rightarrow> int64 \<Rightarrow> event list" where
  "renewal_sleep deadline now =
     (if sint deadline > sint (now + 300) then [Sleep ((deadline - now - 300) * 1000000000)]
      else [])"

definition checkNext :: "Attestation \<Rightarrow> error option \<times> event list" where
  "checkNext a =
     (case AttestValiditySeconds a of
        Inl e \<Rightarrow> (Some e, [AttestValiditySeconds_called])
      | Inr validSecs \<Rightarrow>
          (case AttestedProvers_Time a of
             Inl e \<Rightarrow> (Some e, [AttestValiditySeconds_called, AttestedProvers_called])
           | Inr proverTime \<Rightarrow>
               (let deadline = Int64 proverTime + Int64 validSecs;
                    now = time_Now_Unix a;
                    r = registerAttestationReport a (PubKey_Serialize a)
                in (fst r,
                    [AttestValiditySeconds_called, AttestedProvers_called]
                    @ renewal_sleep deadline now @ snd r))))"

text \<open>
  The background goroutine of \<open>RegisterAttestationReport\<close>: \<open>for { if err := checkNext(ctx);
  err != nil { logex.Error(err) } }\<close>. The loop has no exit, so the model gives what its
  first \<open>n\<close> cycles do, for every \<open>n\<close>; cycle \<open>i\<close> meets the collaborators' answers \<open>as i\<close>.
\<close>

fun renewal_loop :: "nat \<Rightarrow> (nat \<Rightarrow> Attestation) \<Rightarrow> nat \<Rightarrow> event list" where
  "renewal_loop 0 as i = []"
| "renewal_loop (Suc n) as i =
     (let r = checkNext (as i)
      in snd r @ (case fst r of Some e \<Rightarrow> [LogError e] | None \<Rightarrow> [])
         @ renewal_loop n as (Suc i))"

text \<open>
  \<open>RegisterAttestationReport\<close>: the first pass (verify, and register if not yet
  registered), then the goroutine is started and \<open>nil\<close> returned without waiting for it.
\<close>

definition RegisterAttestationReport :: "Attestation \<Rightarrow> error option \<times> event list" where
  "RegisterAttestationReport a =
     (let pubkeyBytes = PubKey_Serialize a
      in if length pubkeyBytes \<noteq> 64 then (Some (Err ''invalid pubkey''), [])
         else case VerifyLivenessProof a of
             Inl e \<Rightarrow> (Some e, [VerifyLivenessProof_called])
           | Inr isRegistered \<Rightarrow>
               if isRegistered then (None, [VerifyLivenessProof_called, go_renewal_loop])
               else let r = registerAttestationReport a pubkeyBytes
                    in case fst r of
                         Some e \<Rightarrow> (Some e, VerifyLivenessProof_called # snd r)
                       | None \<Rightarrow>
                           (None, VerifyLivenessProof_called # snd r @ [go_renewal_loop]))"

section \<open>Startup\<close>

text \<open>
  \<open>Start\<close> of the operator with proof retrieval modes. \<open>taskFetcher_Run_result\<close> is what
  \<open>taskFetcher.Run\<close> returns when it ends.
\<close>

record Startup =
  startup_Simulation :: bool
  TEE_Simulation :: "error + bool"
  IsOperatorRegistered :: "error + bool"
  GetOperatorId :: "error + hash"
  attestation :: Attestation
  taskFetcher_Run_result :: "error option"

definition checkIsRegistered :: "Startup \<Rightarrow> (error + hash) \<times> event list" where
  "checkIsRegistered s =
     (case IsOperatorRegistered s of
        Inl e \<Rightarrow> (Inl e, [IsOperatorRegistered_called])
      | Inr operatorIsRegistered \<Rightarrow>
          if \<not> operatorIsRegistered
          then (Inl (Err ''operator is not registered''), [IsOperatorRegistered_called])
          else (GetOperatorId s, [IsOperatorRegistered_called]))"

definition Start :: "Startup \<Rightarrow> error option \<times> event list" where
  "Start s =
     (case TEE_Simulation s of
        Inl e \<Rightarrow> (Some e, [Simulation_called])
      | Inr isSimulation \<Rightarrow>
          if isSimulation \<noteq> startup_Simulation s
          then (Some (Err ''simulation mode not match with the contract''), [Simulation_called])
          else let c = checkIsRegistered s
               in case fst c of
                    Inl e \<Rightarrow> (Some e, Simulation_called # snd c)
                  | Inr operatorId' \<Rightarrow>
                      (let r = RegisterAttestationReport (attestation s)
                       in case fst r of
                            Some e \<Rightarrow> (Some e, Simulation_called # snd c @ snd r)
                          | None \<Rightarrow>
                              (taskFetcher_Run_result s,
                               Simulation_called # snd c @ snd r
                               @ [metrics_Start, taskFetcher_Run])))"

text \<open>\<open>Start\<close> of the operator of \<open>operator/operator.go\<close>.\<close>

record Startup_legacy =
  RegisterAsOperator :: "error option"
  RegisterOperatorInQuorum :: "error option"
  legacy_pubkeyBytes :: "byte list"
  IsProverRegistered :: "error + bool"
  legacy_GenerateAttestaionReport :: "byte list \<Rightarrow> error + byte list"
  legacy_ChainID :: "error + int"
  legacy_NewKeyedTransactorWithChainID :: "int \<Rightarrow> error option"
  sgxVerifier_Register :: "byte list \<Rightarrow> error + hash"
  legacy_WaitTx :: "hash \<Rightarrow> error option"
  legacy_IsOperatorRegistered :: "error + bool"
  legacy_taskFetcher_Run_result :: "error option"

definition RegisterOperatorWithEigenlayer :: "Startup_legacy \<Rightarrow> error option \<times> event list" where
  "RegisterOperatorWithEigenlayer s = (RegisterAsOperator s, [RegisterAsOperator_called])"

definition RegisterOperatorWithAvs :: "Startup_legacy \<Rightarrow> error option \<times> event list" where
  "RegisterOperatorWithAvs s = (RegisterOperatorInQuorum s, [RegisterOperatorInQuorum_called])"

definition RegisterAttestationReport_legacy :: "Startup_legacy \<Rightarrow> error option \<times> event list" where
  "RegisterAttestationReport_legacy s =
     (let pubkeyBytes = legacy_pubkeyBytes s
      in if length pubkeyBytes \<noteq> 64 then (Some (Err ''invalid pubkey''), [])
         else case IsProverRegistered s of
             Inl e \<Rightarrow> (Some e, [IsProverRegistered_called])
           | Inr isRegistered \<Rightarrow>
               if isRegistered then (None, [IsProverRegistered_called])
               else case legacy_GenerateAttestaionReport s pubkeyBytes of
                   Inl e \<Rightarrow> (Some e, [IsProverRegistered_called])
                 | Inr report \<Rightarrow>
                     (case legacy_ChainID s of
                        Inl e \<Rightarrow> (Some e, [IsProverRegistered_called])
                      | Inr chainId \<Rightarrow>
                          (case legacy_NewKeyedTransactorWithChainID s chainId of
                             Some e \<Rightarrow> (Some e, [IsProverRegistered_called])
                           | None \<Rightarrow>
                               (case sgxVerifier_Register s report of
                                  Inl e \<Rightarrow>
                                    (Some e, [IsProverRegistered_called, Register_called report])
                                | Inr tx \<Rightarrow>
                                    (legacy_WaitTx s tx,
                                     [IsProverRegistered_called, Register_called report,
                                      WaitTx_called tx])))))"

definition checkIsRegistered_legacy :: "Startup_legacy \<Rightarrow> error option \<times> event list" where
  "checkIsRegistered_legacy s =
     (case legacy_IsOperatorRegistered s of
        Inl e \<Rightarrow> (Some e, [IsOperatorRegistered_called])
      | Inr operatorIsRegistered \<Rightarrow>
          if \<not> operatorIsRegistered
          then (Some (Err ''operator is not registered''), [IsOperatorRegistered_called])
          else (None, [IsOperatorRegistered_called]))"

definition Start_legacy :: "Startup_legacy \<Rightarrow> error option \<times> event list" where
  "Start_legacy s =
     (let r1 = RegisterOperatorWithEigenlayer s
      in case fst r1 of
           Some e \<Rightarrow> (Some e, snd r1)
         | None \<Rightarrow>
             (let r2 = RegisterOperatorWithAvs s
              in case fst r2 of
                   Some e \<Rightarrow> (Some e, snd r1 @ snd r2)
                 | None \<Rightarrow>
                     (let r3 = RegisterAttestationReport_legacy s
                      in case fst r3 of
                           Some e \<Rightarrow> (Some e, snd r1 @ snd r2 @ snd r3)
                         | None \<Rightarrow>
                             (let c = checkIsRegistered_legacy s
                              in case fst c of
                                   Some e \<Rightarrow> (Some e, snd r1 @ snd r2 @ snd r3 @ snd c)
                                 | None \<Rightarrow>
                                     (legacy_taskFetcher_Run_result s,
                                      snd r1 @ snd r2 @ snd r3 @ snd c
                                      @ [taskFetcher_Run])))))"

section \<open>The task fetcher\<close>

text \<open>
  The \<open>LogTracerConfig\<close> literals of the two \<open>NewOperator\<close> functions: both set
  \<open>Wait: 5\<close> and \<open>Max: 100\<close>; only the operator with the offset file sets
  \<open>ScanIntervalSecs\<close> (from its configuration) and \<open>SkipOnError: true\<close>, the other one
  leaves them at Go's zero values.
\<close>

record LogTracerConfig =
  cfg_Id :: string
  cfg_Wait :: nat
  cfg_Max :: nat
  cfg_ScanIntervalSecs :: nat
  cfg_SkipOnError :: bool

definition NewOperator_LogTracerConfig :: "nat \<Rightarrow> LogTracerConfig" where
  "NewOperator_LogTracerConfig scanIntervalSecs =
     \<lparr>cfg_Id = ''operator-log-tracer'', cfg_Wait = 5, cfg_Max = 100,
      cfg_ScanIntervalSecs = scanIntervalSecs, cfg_SkipOnError = True\<rparr>"

definition NewOperator_legacy_LogTracerConfig :: LogTracerConfig where
  "NewOperator_legacy_LogTracerConfig =
     \<lparr>cfg_Id = ''operator-log-tracer'', cfg_Wait = 5, cfg_Max = 100,
      cfg_ScanIntervalSecs = 0, cfg_SkipOnError = False\<rparr>"

text \<open>
  Modelled from the spec: the scan target of a cycle. The \<open>LogTracer\<close> (\<open>NewLogTracer\<close> and
  its \<open>Run\<close>) is not among the sources; the spec gives
  \<open>target = min(C + maxBlocksPerWindow, H - confirmationLag)\<close>, with \<open>Max\<close> the window
  size and \<open>Wait\<close> the confirmation lag.
\<close>

definition scan_target :: "LogTracerConfig \<Rightarrow> int \<Rightarrow> int \<Rightarrow> int" where
  "scan_target cfg C H = min (C + int (cfg_Max cfg)) (H - int (cfg_Wait cfg))"

text \<open>
  Modelled from the spec: the logs of a window, those of the blocks in \<open>(C, target]\<close>, in
  ascending (block, index) order. The \<open>LogTracer\<close>'s log query is not among the sources.
\<close>

definition log_key :: "Log \<Rightarrow> nat \<times> nat" where
  "log_key l = (unat (BlockNumber l), Index l)"

definition window_logs :: "int \<Rightarrow> int \<Rightarrow> Log list \<Rightarrow> Log list" where
  "window_logs C target logs =
     sort_key log_key
       (filter (\<lambda>l. C < uint (BlockNumber l) \<and> uint (BlockNumber l) \<le> target) logs)"

text \<open>
  What a cycle does, in order: it calls the handler on a log, the handler returns (with
  its error), the checkpoint is set, the tracer sleeps for the poll interval.
\<close>

datatype tracer_event = Dispatch Log | Returned "error option" | SetCheckpoint int | SleepPoll

datatype window_status = Completed | Aborted | Crashed

text \<open>
  Modelled from the spec: the dispatch of a window's logs, missing from the sources with
  the \<open>LogTracer\<close>. On a handler error the skip-tolerant tracer goes on with the next log
  and the other one aborts the cycle; a handler that panics ends the process.
\<close>

fun dispatch_window ::
  "bool \<Rightarrow> (Log \<Rightarrow> (error option \<times> effect list) outcome) \<Rightarrow> Log list
   \<Rightarrow> window_status \<times> tracer_event list" where
  "dispatch_window skipOnError handler [] = (Completed, [])"
| "dispatch_window skipOnError handler (l # ls) =
     (case handler l of
        Panics \<Rightarrow> (Crashed, [Dispatch l])
      | Returns r \<Rightarrow>
          if fst r \<noteq> None \<and> \<not> skipOnError then (Aborted, [Dispatch l, Returned (fst r)])
          else let d = dispatch_window skipOnError handler ls
               in (fst d, Dispatch l # Returned (fst r) # snd d))"

text \<open>
  Modelled from the spec: one cycle of the \<open>LogTracer\<close>'s \<open>Run\<close>, missing from the
  sources, from checkpoint \<open>C\<close> and chain head \<open>H\<close>: no target beyond the checkpoint means
  sleep and retry; a completed window sets the checkpoint to the target; otherwise the
  checkpoint stays. The result is the checkpoint after the cycle and what the cycle did.
\<close>

definition run_cycle ::
  "LogTracerConfig \<Rightarrow> (Log \<Rightarrow> (error option \<times> effect list) outcome) \<Rightarrow> int \<Rightarrow> int
   \<Rightarrow> Log list \<Rightarrow> int \<times> tracer_event list" where
  "run_cycle cfg handler C H logs =
     (let target = scan_target cfg C H
      in if target \<le> C then (C, [SleepPoll])
         else let d = dispatch_window (cfg_SkipOnError cfg) handler (window_logs C target logs)
              in if fst d = Completed then (target, snd d @ [SetCheckpoint target, SleepPoll])
                 else (C, snd d))"

text \<open>The logs a cycle dispatched, in order.\<close>

fun dispatched :: "tracer_event list \<Rightarrow> Log list" where
  "dispatched [] = []"
| "dispatched (Dispatch l # evs) = l # dispatched evs"
| "dispatched (_ # evs) = dispatched evs"

section \<open>Reading results, and example inputs\<close>

text \<open>The state headers among a handler's effects.\<close>

fun built :: "effect list \<Rightarrow> StateHeader list" where
  "built [] = []"
| "built (Built h # es) = h # built es"
| "built (_ # es) = built es"

text \<open>
  A log of block 150 with three topics and 32 bytes of data; an operator that asks the
  prover (which answers \<open>getPoe\<close>); an operator in simulation mode whose transaction
  decodes to the given chunks and whose source chain has, at block \<open>n\<close>, the state root
  \<open>1000 + n\<close>; and an operator of \<open>operator/operator.go\<close>. The chain head is block 160.
\<close>

definition example_log :: Log where
  "example_log =
     \<lparr>BlockNumber = 150, Index = 0, TxHash = 1, Topics = [10, 11, 12],
      Data = Bytes (replicate 31 0 @ [7]) []\<rparr>"

definition live_operator ::
  "(hash \<Rightarrow> PoeResponse option \<times> bool \<times> error option) \<Rightarrow> Operator" where
  "live_operator getPoe =
     \<lparr>cfg_Simulation = False, cfg_Identifier = 1, quorumNumbers = [0], operatorId = 5,
      Client_HeaderByNumber = Inr \<lparr>Number = 160, Root = 0\<rparr>,
      source_TransactionByHash = (\<lambda>_. Inl (Err ''no source'')),
      source_HeaderByNumber = (\<lambda>_. Inl (Err ''no source'')),
      Inputs_Unpack = (\<lambda>_. Inl (Err ''no call data'')),
      proverClient_GetPoe = getPoe,
      json_Marshal = (\<lambda>_. Inr []),
      Pack = (\<lambda>_. []),
      Digest = (\<lambda>_. Inr 0),
      SignMessage = (\<lambda>_. []),
      aggregator_SubmitTask = (\<lambda>_. None)\<rparr>"

definition simulation_operator :: "bytes list \<Rightarrow> Operator" where
  "simulation_operator chunks =
     \<lparr>cfg_Simulation = True, cfg_Identifier = 1, quorumNumbers = [0], operatorId = 5,
      Client_HeaderByNumber = Inr \<lparr>Number = 160, Root = 0\<rparr>,
      source_TransactionByHash = (\<lambda>_. Inr [0, 0, 0, 0]),
      source_HeaderByNumber = (\<lambda>n. Inr \<lparr>Number = sint n, Root = 1000 + ucast n\<rparr>),
      Inputs_Unpack = (\<lambda>_. Inr chunks),
      proverClient_GetPoe = (\<lambda>_. (None, False, Some (Err ''no prover''))),
      json_Marshal = (\<lambda>_. Inr []),
      Pack = (\<lambda>_. []),
      Digest = (\<lambda>_. Inr 0),
      SignMessage = (\<lambda>_. []),
      aggregator_SubmitTask = (\<lambda>_. None)\<rparr>"

definition legacy_operator :: Operator_legacy where
  "legacy_operator =
     \<lparr>legacy_operatorId = 5, legacy_PubKey_Serialize = [],
      legacy_GetPoe = (\<lambda>_. Inr \<lparr>BatchHash = 0, NewStateRoot = 0, PrevStateRoot = 0\<rparr>),
      legacy_Pack = (\<lambda>_. []),
      legacy_Digest = (\<lambda>_. Inr 0),
      legacy_SignMessage = (\<lambda>_. []),
      legacy_SubmitStateHeader = (\<lambda>_. Returns None)\<rparr>"

text \<open>A chunk of one block: the count 1, then block number 7 in 8 bytes and 52 more bytes.\<close>

definition one_block_chunk :: bytes where
  "one_block_chunk = Bytes (1 # [0, 0, 0, 0, 0, 0, 0, 7] @ replicate 52 0) []"

text \<open>
  A chunk that the loops of \<open>proverGetPoe\<close> read without a panic: it has its count byte,
  and the last record's block number, at \<open>(count - 1) * 60\<close> to \<open>(count - 1) * 60 + 8\<close> of
  \<open>chunk[1:]\<close>, is within the capacity (that is, \<open>count * 60 \<le> cap(chunk[1:]) + 52\<close>).
  \<open>chunk_blocks\<close> are the block numbers the loop reads from it.
\<close>

definition chunk_ok :: "bytes \<Rightarrow> bool" where
  "chunk_ok chunk =
     (case elems chunk of
        [] \<Rightarrow> False
      | count # records \<Rightarrow> unat count * 60 \<le> length records + length (spare chunk) + 52)"

definition chunk_blocks :: "bytes \<Rightarrow> int64 list" where
  "chunk_blocks chunk =
     map (\<lambda>i. BigEndian_Uint64 (take 8 (drop (i * 60) (tl (elems chunk) @ spare chunk))))
         [0..<unat (hd (elems chunk))]"

text \<open>
  Call data that simulation-mode \<open>proverGetPoe\<close> reads without a panic: a fetched
  transaction has its 4 selector bytes, and the chunks it decodes to are all \<open>chunk_ok\<close>.
\<close>

definition call_data_ok :: "Operator \<Rightarrow> hash \<Rightarrow> bool" where
  "call_data_ok o' txHash =
     (case source_TransactionByHash o' txHash of
        Inl _ \<Rightarrow> True
      | Inr txData \<Rightarrow>
          4 \<le> length txData
          \<and> (case Inputs_Unpack o' (drop 4 txData) of
                Inl _ \<Rightarrow> True
              | Inr chunks \<Rightarrow> list_all chunk_ok chunks))"

text \<open>
  A chunk of two blocks, 7 and 258; and a chunk of length 1 that counts one block whose
  record, of block 7, lies in its spare capacity.
\<close>

definition two_block_chunk :: bytes where
  "two_block_chunk =
     Bytes (2 # [0, 0, 0, 0, 0, 0, 0, 7] @ replicate 52 0
              @ [0, 0, 0, 0, 0, 0, 1, 2] @ replicate 52 0) []"

definition spare_chunk :: bytes where
  "spare_chunk = Bytes [1] [0, 0, 0, 0, 0, 0, 0, 7]"

text \<open>
  The time a run spends asleep, in nanoseconds: \<open>time.Sleep\<close> returns at once on a
  duration that is not positive.
\<close>

fun slept :: "event list \<Rightarrow> int" where
  "slept [] = 0"
| "slept (Sleep d # es) = max 0 (sint d) + slept es"
| "slept (_ # es) = slept es"

text \<open>
  Attestation collaborators that all succeed, for an operator registered at \<open>proverTime\<close>
  under a validity window of \<open>validSecs\<close> seconds, at clock time \<open>now\<close>.
\<close>

definition example_attestation :: "int \<Rightarrow> int \<Rightarrow> int64 \<Rightarrow> Attestation" where
  "example_attestation validSecs proverTime now =
     \<lparr>att_Simulation = False,
      PubKey_Serialize = replicate 64 1,
      generateSimulationQuote = (\<lambda>_. Inr []),
      GenerateAttestaionReport = (\<lambda>_. Inr [42]),
      ChainID = Inr 1,
      NewKeyedTransactorWithChainID = (\<lambda>_. None),
      SubmitLivenessProof = (\<lambda>_. Inr 77),
      WaitTx = (\<lambda>_. None),
      VerifyLivenessProof = Inr True,
      AttestValiditySeconds = Inr validSecs,
      AttestedProvers_Time = Inr proverTime,
      time_Now_Unix = now\<rparr>"

text \<open>
  Startups in which every call succeeds, given the registry's answer to
  \<open>IsOperatorRegistered\<close>; and renewal cycles whose first one fails at its first call.
\<close>

definition example_startup :: "error + bool \<Rightarrow> Startup" where
  "example_startup isRegistered =
     \<lparr>startup_Simulation = False,
      TEE_Simulation = Inr False,
      IsOperatorRegistered = isRegistered,
      GetOperatorId = Inr 5,
      attestation = example_attestation 1000 1700000000 1700000100,
      taskFetcher_Run_result = None\<rparr>"

definition example_startup_legacy :: "error + bool \<Rightarrow> Startup_legacy" where
  "example_startup_legacy isRegistered =
     \<lparr>RegisterAsOperator = None,
      RegisterOperatorInQuorum = None,
      legacy_pubkeyBytes = replicate 64 1,
      IsProverRegistered = Inr False,
      legacy_GenerateAttestaionReport = (\<lambda>_. Inr [42]),
      legacy_ChainID = Inr 1,
      legacy_NewKeyedTransactorWithChainID = (\<lambda>_. None),
      sgxVerifier_Register = (\<lambda>_. Inr 77),
      legacy_WaitTx = (\<lambda>_. None),
      legacy_IsOperatorRegistered = isRegistered,
      legacy_taskFetcher_Run_result = None\<rparr>"

definition failing_then_fine :: "nat \<Rightarrow> Attestation" where
  "failing_then_fine i =
     (if i = 0
      then (example_attestation 1000 1700000000 1700000800)
             \<lparr>AttestValiditySeconds := Inl (Err ''rpc unreachable'')\<rparr>
      else example_attestation 1000 1700000000 1700000800)"

text \<open>The number of handler calls that returned during a cycle.\<close>

fun returned :: "tracer_event list \<Rightarrow> nat" where
  "returned [] = 0"
| "returned (Returned e # evs) = Suc (returned evs)"
| "returned (_ # evs) = returned evs"

text \<open>
  Logs of five blocks around the window \<open>(100, 155]\<close>, out of order, and a handler that
  returns an error on the logs of index 1.
\<close>

definition block_log :: "uint64 \<Rightarrow> nat \<Rightarrow> Log" where
  "block_log b i =
     \<lparr>BlockNumber = b, Index = i, TxHash = 1, Topics = [10, 11, 12], Data = Bytes [] []\<rparr>"

definition example_logs :: "Log list" where
  "example_logs =
     [block_log 155 0, block_log 156 0, block_log 101 1, block_log 100 0, block_log 101 0]"

definition example_handler :: "Log \<Rightarrow> (error option \<times> effect list) outcome" where
  "example_handler l =
     (if Index l = 1 then Returns (Some (Err ''rejected''), []) else Returns (None, []))"

section \<open>Properties of the checkpoint record\<close>

text \<open>
  C3. When the checkpoint record is absent (the offset file is empty), \<open>GetBlock\<close> returns
  block 0 and no error.
\<close>

theorem GetBlock_empty: "GetBlock [] = Inr 0"
  by (simp add: GetBlock_def GetBlock_of_def ReadAt_def)

subsection \<open>Parsing what \<open>FormatUint\<close> wrote\<close>

lemma ParseUint_loop_snoc:
  "ParseUint_loop n (cs @ [c]) =
     (case ParseUint_loop n cs of Inl e \<Rightarrow> Inl e | Inr m \<Rightarrow> ParseUint_loop m [c])"
  by (induction cs arbitrary: n) (auto simp: Let_def)

lemma digit_unat: "d < 10 \<Longrightarrow> unat (of_nat d :: byte) = d"
  by (simp add: unat_of_nat)

lemma digit_byte_unat: "d < 10 \<Longrightarrow> unat ((48::byte) + of_nat d) = 48 + d"
proof -
  assume d: "d < 10"
  have "(48::byte) + of_nat d = of_nat (48 + d)" by simp
  moreover have "unat (of_nat (48 + d) :: byte) = 48 + d"
    using d by (simp only: unat_of_nat) simp
  ultimately show ?thesis by simp
qed

lemma digit_byte:
  assumes "d < 10"
  shows "(48::byte) \<le> 48 + of_nat d" "(48::byte) + of_nat d \<le> 57"
    "unat ((48::byte) + of_nat d - 48) = d"
  using assms digit_byte_unat[OF assms] digit_unat[OF assms]
  by (simp_all add: word_le_nat_alt)

lemma FormatUint_nat_nonempty: "FormatUint_nat n \<noteq> []"
  by (subst FormatUint_nat.simps) simp

lemma ParseUint_loop_FormatUint_nat:
  "n \<le> maxUint64 \<Longrightarrow> ParseUint_loop 0 (FormatUint_nat n) = Inr n"
proof (induction n rule: FormatUint_nat.induct)
  case (1 n)
  show ?case
  proof (cases "n < 10")
    case True
    then show ?thesis
      by (subst FormatUint_nat.simps) (simp add: digit_byte digit_unat maxUint64_def)
  next
    case False
    have le: "n div 10 \<le> maxUint64" using "1.prems" by simp
    have ih: "ParseUint_loop 0 (FormatUint_nat (n div 10)) = Inr (n div 10)"
      using "1.IH" False le by simp
    have m: "n mod 10 < 10" by simp
    have c: "\<not> n div 10 \<ge> maxUint64 div 10 + 1" using "1.prems" by (simp add: maxUint64_def)
    have e: "n div 10 * 10 + n mod 10 = n" by simp
    show ?thesis
      using False c "1.prems"
      by (subst FormatUint_nat.simps) (simp add: ParseUint_loop_snoc ih digit_byte[OF m] digit_unat[OF m] Let_def e)
  qed
qed

lemma FormatUint_nat_digits: "b \<in> set (FormatUint_nat n) \<Longrightarrow> 48 \<le> b \<and> b \<le> 57"
proof (induction n rule: FormatUint_nat.induct)
  case (1 n)
  show ?case
  proof (cases "n < 10")
    case True
    with "1.prems" show ?thesis
      by (subst (asm) FormatUint_nat.simps) (simp add: digit_byte)
  next
    case False
    have m: "n mod 10 < 10" by simp
    from "1.prems" False have "b \<in> set (FormatUint_nat (n div 10)) \<or> b = 48 + of_nat (n mod 10)"
      by (subst (asm) FormatUint_nat.simps) auto
    then show ?thesis using "1.IH" False digit_byte[OF m] by auto
  qed
qed

lemma length_FormatUint_nat: "0 < k \<Longrightarrow> n < 10 ^ k \<Longrightarrow> length (FormatUint_nat n) \<le> k"
proof (induction n arbitrary: k rule: FormatUint_nat.induct)
  case (1 n)
  show ?case
  proof (cases "n < 10")
    case True
    then show ?thesis using "1.prems" by (subst FormatUint_nat.simps) simp
  next
    case False
    then obtain j where k: "k = Suc j" using "1.prems" by (cases k) auto
    have "j > 0" using False "1.prems" k by (cases j) auto
    moreover have "n div 10 < 10 ^ j" using "1.prems" k by (simp add: less_mult_imp_div_less mult.commute)
    ultimately have "length (FormatUint_nat (n div 10)) \<le> j" using "1.IH" False by simp
    then show ?thesis using False k by (subst FormatUint_nat.simps) simp
  qed
qed

lemma Trim_padding:
  assumes "ds \<noteq> []" and "\<And>b. b \<in> set ds \<Longrightarrow> b \<notin> set cs" and "set pad \<subseteq> set cs"
  shows "Trim (ds @ pad) cs = ds"
proof -
  let ?P = "\<lambda>b. b \<in> set cs"
  have h: "\<not> ?P (hd ds)" and l: "\<not> ?P (hd (rev ds))"
    using assms(1,2) by (simp_all add: hd_rev)
  have 1: "dropWhile ?P (ds @ pad) = ds @ pad"
    using assms(1) h by (cases ds) simp_all
  have 2: "dropWhile ?P (rev pad @ rev ds) = dropWhile ?P (rev ds)"
    using assms(3) by (intro dropWhile_append2) auto
  have 3: "dropWhile ?P (rev ds) = rev ds"
    using assms(1) l by (cases "rev ds") simp_all
  show ?thesis by (simp add: Trim_def 1 2 3)
qed

lemma digit_not_in_cutset: "48 \<le> b \<Longrightarrow> b \<notin> set cutset" for b :: byte
  by (auto simp: cutset_def)

lemma ParseInt_FormatUint_nat:
  assumes "n < 2 ^ 63"
  shows "ParseInt (FormatUint_nat n) = Inr (of_nat n)"
proof -
  let ?ds = "FormatUint_nat n"
  have ne: "?ds \<noteq> []" by (rule FormatUint_nat_nonempty)
  then have "hd ?ds \<in> set ?ds" by simp
  then have d: "48 \<le> hd ?ds" using FormatUint_nat_digits by blast
  have s: "hd ?ds \<noteq> 43" "hd ?ds \<noteq> 45" using d by auto
  have "n \<le> maxUint64" using assms by (simp add: maxUint64_def)
  then have p: "ParseUint ?ds = Inr n"
    using ne by (simp add: ParseUint_def ParseUint_loop_FormatUint_nat)
  show ?thesis using assms ne s p by (simp add: ParseInt_def)
qed

subsection \<open>Save, then read\<close>

text \<open>\<open>SaveBlock\<close> returns the error of a write that fails, and \<open>nil\<close> otherwise.\<close>

lemma SaveBlock_error:
  "snd (SaveBlock offset n fault) = (case fault of None \<Rightarrow> None | Some (k, e) \<Rightarrow> Some e)"
  by (simp add: SaveBlock_def WriteAt_def split: option.splits)

text \<open>
  C2, as the code has it. In the operator with the offset file \<open>SaveBlock\<close> overwrites the
  start of the record and never truncates it, and \<open>GetBlock\<close> reads 16 bytes. So for every
  \<open>n\<close> below \<open>10^16\<close> (at most 16 digits), when \<open>SaveBlock n\<close> returns no error (its write
  succeeded), \<open>GetBlock\<close> then returns \<open>n\<close> and no error, provided the bytes that the
  earlier content leaves behind the new text, within the 16 bytes read, are only bytes that
  \<open>GetBlock\<close> trims (NUL, CR, LF, space): in particular when the earlier content is no
  longer than the new text. The operator of \<open>operator/operator.go\<close> keeps no record: its
  \<open>SaveBlock\<close> returns \<open>nil\<close> and its \<open>GetBlock\<close> returns \<open>(0, nil)\<close>, whatever was saved.
\<close>

theorem SaveBlock_GetBlock:
  assumes "snd (SaveBlock offset n fault) = None"
    and "unat n < 10 ^ 16"
    and "set (drop (length (FormatUint n)) (take 16 offset)) \<subseteq> set cutset"
  shows "GetBlock (fst (SaveBlock offset n fault)) = Inr n
         \<and> SaveBlock_legacy ol n = None \<and> GetBlock_legacy ol = Inr 0"
proof -
  define ds where "ds = FormatUint n"
  define pad where "pad = take (16 - length ds) (drop (length ds) offset)"
  have fault: "fault = None"
    using assms(1) by (cases fault) (auto simp: SaveBlock_error)
  have ne: "ds \<noteq> []" by (simp add: ds_def FormatUint_def FormatUint_nat_nonempty)
  have len: "length ds \<le> 16"
    using assms(2) length_FormatUint_nat[of 16 "unat n"] by (simp add: ds_def FormatUint_def)
  have w: "SaveBlock offset n fault = (ds @ drop (length ds) offset, None)"
    by (simp add: SaveBlock_def WriteAt_def overwrite_def ds_def fault)
  have tk: "take 16 (ds @ drop (length ds) offset) = ds @ pad"
    using len by (simp add: pad_def)
  have pad: "set pad \<subseteq> set cutset" using assms(3) by (simp add: pad_def ds_def drop_take)
  have dig: "\<And>b. b \<in> set ds \<Longrightarrow> b \<notin> set cutset"
    using FormatUint_nat_digits digit_not_in_cutset by (auto simp: ds_def FormatUint_def)
  have t: "Trim (ds @ pad) cutset = ds"
    by (rule Trim_padding[OF ne dig pad])
  have "unat n < 2 ^ 63" using assms(2) by simp
  then have p: "ParseInt ds = Inr n"
    using ParseInt_FormatUint_nat[of "unat n"] by (simp add: ds_def FormatUint_def)
  have "GetBlock (ds @ drop (length ds) offset)
          = GetBlock_of (ds @ pad, if length (ds @ pad) < 16 then Some EOF else None)"
    by (simp only: GetBlock_def ReadAt_def Let_def drop_0 tk)
  also have "\<dots> = Inr n"
    using ne by (simp add: GetBlock_of_def Let_def t p)
  finally show ?thesis by (simp add: w SaveBlock_legacy_def GetBlock_legacy_def)
qed

lemma FormatUint_10: "FormatUint 10 = [49, 48]"
  by code_simp

lemma FormatUint_9: "FormatUint 9 = [57]"
  by code_simp

text \<open>The record \<open>"9\n\n"\<close>, then \<open>SaveBlock 10\<close>: the record is \<open>"10\n"\<close> and reads as 10.\<close>

theorem SaveBlock_GetBlock_witness:
  "snd (SaveBlock [57, 10, 10] 10 None) = None
   \<and> unat (10::uint64) < 10 ^ 16
   \<and> set (drop (length (FormatUint 10)) (take 16 [57, 10, 10])) \<subseteq> set cutset
   \<and> SaveBlock [57, 10, 10] 10 None = ([49, 48, 10], None)
   \<and> GetBlock (fst (SaveBlock [57, 10, 10] 10 None)) = Inr 10
   \<and> SaveBlock_legacy legacy_operator 10 = None
   \<and> GetBlock_legacy legacy_operator = Inr 0"
  using SaveBlock_GetBlock[of "[57, 10, 10]" 10 None legacy_operator]
  by (simp add: FormatUint_10 cutset_def SaveBlock_def WriteAt_def overwrite_def)

text \<open>
  C2 as stated fails on a record that held a longer text: after \<open>SaveBlock 10\<close> the
  record is \<open>"10"\<close>; \<open>SaveBlock 9\<close> makes it \<open>"90"\<close>, and \<open>GetBlock\<close> returns 90, both
  writes having succeeded. It also fails on the operator of \<open>operator/operator.go\<close>, whose
  \<open>GetBlock\<close> returns 0 after \<open>SaveBlock 9\<close>.
\<close>

theorem SaveBlock_GetBlock_stale_counterexample:
  "SaveBlock [] 10 None = ([49, 48], None)
   \<and> SaveBlock [49, 48] 9 None = ([57, 48], None)
   \<and> GetBlock (fst (SaveBlock (fst (SaveBlock [] 10 None)) 9 None)) = Inr 90
   \<and> GetBlock (fst (SaveBlock (fst (SaveBlock [] 10 None)) 9 None)) \<noteq> Inr 9
   \<and> SaveBlock_legacy legacy_operator 9 = None
   \<and> GetBlock_legacy legacy_operator \<noteq> Inr 9"
  by (simp add: FormatUint_10 FormatUint_9 SaveBlock_def WriteAt_def overwrite_def GetBlock_def
      ReadAt_def GetBlock_of_def Trim_def cutset_def ParseInt_def ParseUint_def maxUint64_def
      SaveBlock_legacy_def GetBlock_legacy_def)

section \<open>Properties of the log handlers\<close>

subsection \<open>The reference block number\<close>

text \<open>
  C1 fails on the operator of \<open>operator/operator.go\<close>: its \<open>OnNewLog\<close> never reads the
  chain head and builds every header with \<open>ReferenceBlockNumber: 0\<close> (marked
  \<open>TODO: fixme\<close> in the source). On the example log, with the chain head at block 160, the
  header it builds and submits has reference block 0, not 159.
\<close>

theorem OnNewLog_legacy_reference_block_zero:
  "(case OnNewLog_legacy legacy_operator example_log of
      Panics \<Rightarrow> [] | Returns r \<Rightarrow> map ReferenceBlockNumber (built (snd r))) = [0]"
  by (simp add: OnNewLog_legacy_def legacy_operator_def example_log_def slice_of_def cap_def
      Let_def)

text \<open>It does so on every log.\<close>

lemma OnNewLog_legacy_ReferenceBlockNumber:
  assumes "OnNewLog_legacy o' log = Returns (err, effs)" and "h \<in> set (built effs)"
  shows "ReferenceBlockNumber h = 0"
  using assms
  by (auto simp: OnNewLog_legacy_def Let_def split: outcome.splits sum.splits option.splits)

text \<open>
  The operator with proof retrieval modes takes the head's number as an \<open>int64\<close>,
  subtracts 1 and converts to \<open>uint32\<close>: for a head between 1 and \<open>2^32\<close> that is the head
  minus 1.
\<close>

lemma ucast_word_of_int_64_32: "(ucast (word_of_int k :: 64 word) :: 32 word) = word_of_int k"
  by (simp add: unsigned_of_int word_of_int_eq_iff)

lemma head_minus_one:
  assumes "1 \<le> n" and "n \<le> 2 ^ 32"
  shows "uint (ucast (Int64 n - 1) :: uint32) = n - 1"
proof -
  have "Int64 n - 1 = (word_of_int (n - 1) :: 64 word)" by (simp add: Int64_def)
  then have "(ucast (Int64 n - 1) :: 32 word) = word_of_int (n - 1)"
    by (simp only: ucast_word_of_int_64_32)
  moreover have "uint (word_of_int (n - 1) :: 32 word) = n - 1"
  proof -
    have "take_bit 32 (n - 1) = n - 1"
      using assms by (intro take_bit_int_eq_self) simp_all
    then show ?thesis
      using uint_word_of_int_eq[of "n - 1", where ?'a = 32] by simp
  qed
  ultimately show ?thesis by simp
qed

lemma OnNewLog_ReferenceBlockNumber:
  assumes "OnNewLog o' log = Returns (err, effs)" and "h \<in> set (built effs)"
  shows "\<exists>blockHeader. Client_HeaderByNumber o' = Inr blockHeader
           \<and> ReferenceBlockNumber h = ucast (Int64 (Number blockHeader) - 1)"
  using assms
  by (auto simp: OnNewLog_def Let_def
           split: outcome.splits sum.splits option.splits prod.splits if_splits)

subsection \<open>Skipped events\<close>

text \<open>
  C4, as the code has it. \<open>OnNewLog\<close> looks at the error of proof retrieval before it
  looks at the skip flag. So for every event whose proof retrieval (reached once the chain
  head was fetched) returns skip=true and no error, \<open>OnNewLog\<close> returns \<open>nil\<close> and
  builds, signs and submits nothing; and the tracer, under either error policy, goes on
  with the rest of the window exactly as if the event had been handled, so the window
  completes, and the checkpoint advances, whenever the remaining events allow it.
\<close>

theorem OnNewLog_skip:
  assumes "Client_HeaderByNumber o' = Inr blockHeader"
    and "proverGetPoe o' (TxHash log) (Topics log) = Returns (poe, True, None)"
  shows "OnNewLog o' log = Returns (None, [])
         \<and> dispatch_window skipOnError (OnNewLog o') (log # ls)
             = (fst (dispatch_window skipOnError (OnNewLog o') ls),
                Dispatch log # Returned None # snd (dispatch_window skipOnError (OnNewLog o') ls))"
proof -
  have r: "OnNewLog o' log = Returns (None, [])"
    by (simp add: OnNewLog_def assms)
  show ?thesis by (simp add: r Let_def)
qed

lemma proverGetPoe_live_operator:
  "proverGetPoe (live_operator getPoe) (TxHash example_log) (Topics example_log)
     = (case getPoe 1 of
          (poe, skip, err) \<Rightarrow>
            (case err of Some e \<Rightarrow> Returns (None, skip, Some e) | None \<Rightarrow> Returns (poe, skip, None)))"
  by (simp add: proverGetPoe_def live_operator_def example_log_def index_def)

theorem OnNewLog_skip_witness:
  "Client_HeaderByNumber (live_operator (\<lambda>_. (None, True, None))) = Inr \<lparr>Number = 160, Root = 0\<rparr>
   \<and> proverGetPoe (live_operator (\<lambda>_. (None, True, None))) (TxHash example_log) (Topics example_log)
       = Returns (None, True, None)
   \<and> OnNewLog (live_operator (\<lambda>_. (None, True, None))) example_log = Returns (None, [])
   \<and> dispatch_window False (OnNewLog (live_operator (\<lambda>_. (None, True, None)))) [example_log]
       = (Completed, [Dispatch example_log, Returned None])"
proof -
  have h: "Client_HeaderByNumber (live_operator (\<lambda>_. (None, True, None))) = Inr \<lparr>Number = 160, Root = 0\<rparr>"
    by (simp add: live_operator_def)
  have p: "proverGetPoe (live_operator (\<lambda>_. (None, True, None))) (TxHash example_log) (Topics example_log)
       = Returns (None, True, None)"
    by (simp add: proverGetPoe_live_operator)
  show ?thesis
    using OnNewLog_skip[OF h p, of False "[]"] h p by simp
qed

text \<open>
  C4 as stated fails when the prover's answer carries the skip flag beside an error,
  which \<open>proverGetPoe\<close> passes on as it is: the error is returned by \<open>OnNewLog\<close>.
\<close>

theorem OnNewLog_skip_with_error_counterexample:
  "proverGetPoe (live_operator (\<lambda>_. (None, True, Some (Err ''prover unreachable''))))
       (TxHash example_log) (Topics example_log)
     = Returns (None, True, Some (Err ''prover unreachable''))
   \<and> OnNewLog (live_operator (\<lambda>_. (None, True, Some (Err ''prover unreachable'')))) example_log
     = Returns (Some (Err ''prover unreachable''), [])"
proof -
  have p: "proverGetPoe (live_operator (\<lambda>_. (None, True, Some (Err ''prover unreachable''))))
       (TxHash example_log) (Topics example_log)
     = Returns (None, True, Some (Err ''prover unreachable''))"
    by (simp add: proverGetPoe_live_operator)
  have h: "Client_HeaderByNumber (live_operator (\<lambda>_. (None, True, Some (Err ''prover unreachable''))))
             = Inr \<lparr>Number = 160, Root = 0\<rparr>"
    by (simp add: live_operator_def)
  show ?thesis by (simp add: OnNewLog_def p h)
qed

subsection \<open>The block range of simulation mode\<close>

text \<open>
  On chunks that are read without a panic the two loops are a fold of \<open>block_step\<close> over
  the block numbers of all records, in order.
\<close>

lemma slice_record:
  "i * 60 + 8 \<le> cap records
   \<Longrightarrow> slice_of records (i * 60) (i * 60 + 8)
       = Returns (Bytes (take 8 (drop (i * 60) (elems records @ spare records)))
                        (drop (i * 60 + 8) (elems records @ spare records)))"
  by (simp add: slice_of_def)

lemma records_fold:
  assumes "\<And>i. i \<in> set is \<Longrightarrow> i * 60 + 8 \<le> cap records"
  shows "foldl (\<lambda>acc i. case acc of
                   Panics \<Rightarrow> Panics
                 | Returns st' \<Rightarrow>
                     (case slice_of records (i * 60) (i * 60 + 8) of
                        Panics \<Rightarrow> Panics
                      | Returns b \<Rightarrow>
                          Returns (block_step st' (BigEndian_Uint64 (elems b)))))
               (Returns st) is
         = Returns (foldl block_step st
                      (map (\<lambda>i. BigEndian_Uint64
                                   (take 8 (drop (i * 60) (elems records @ spare records))))
                           is))"
  using assms
proof (induction "is" arbitrary: st)
  case Nil
  then show ?case by simp
next
  case (Cons i "is")
  have bound: "i * 60 + 8 \<le> cap records" using Cons.prems by simp
  have rest: "\<And>j. j \<in> set is \<Longrightarrow> j * 60 + 8 \<le> cap records" using Cons.prems by simp
  show ?case
    by (simp only: foldl_Cons list.map outcome.case slice_record[OF bound] bytes.sel
        Cons.IH[OF rest])
qed

lemma chunk_loop_ok:
  assumes "chunk_ok chunk"
  shows "chunk_loop st chunk = Returns (foldl block_step st (chunk_blocks chunk))"
proof -
  obtain count records sp where c: "chunk = Bytes (count # records) sp" and
    len: "unat count * 60 \<le> length records + length sp + 52"
    using assms by (cases chunk) (auto simp: chunk_ok_def split: list.splits)
  have r: "slice_from chunk 1 = Returns (Bytes records sp)"
    by (simp add: slice_from_def c)
  have b: "\<And>i. i \<in> set [0..<unat count] \<Longrightarrow> i * 60 + 8 \<le> cap (Bytes records sp)"
    using len by (auto simp: cap_def)
  have i: "index (elems chunk) 0 = Returns count"
    by (simp add: index_def c)
  have "chunk_loop st chunk
          = Returns (foldl block_step st
                       (map (\<lambda>i. BigEndian_Uint64 (take 8 (drop (i * 60) (records @ sp))))
                            [0..<unat count]))"
    by (simp only: chunk_loop_def i r outcome.case records_fold[OF b] bytes.sel)
  then show ?thesis by (simp add: chunk_blocks_def c)
qed

lemma chunks_fold:
  assumes "list_all chunk_ok chunks"
  shows "foldl (\<lambda>acc chunk. case acc of Panics \<Rightarrow> Panics | Returns st \<Rightarrow> chunk_loop st chunk)
               (Returns st) chunks
         = Returns (foldl block_step st (concat (map chunk_blocks chunks)))"
  using assms
  by (induction chunks arbitrary: st) (simp_all add: chunk_loop_ok)

lemma block_range_ok:
  "list_all chunk_ok chunks
   \<Longrightarrow> block_range chunks = Returns (foldl block_step (0, 0) (concat (map chunk_blocks chunks)))"
  by (simp add: block_range_def chunks_fold)

text \<open>
  Once \<open>startBlock\<close> is set, every later block number goes to \<open>endBlock\<close>: with a first
  block number other than 0 and at least two blocks, the range is (first, last).
\<close>

lemma foldl_block_step_started:
  "s \<noteq> 0 \<Longrightarrow> foldl block_step (s, e) bs = (s, if bs = [] then e else last bs)"
  by (induction bs arbitrary: e) (simp_all add: block_step_def)

lemma foldl_block_step_first:
  "b \<noteq> 0 \<Longrightarrow> foldl block_step (0, e) (b # bs) = (b, if bs = [] then e else last bs)"
  by (simp add: block_step_def foldl_block_step_started)

lemma proverGetPoe_simulation:
  assumes "cfg_Simulation o'"
    and "source_TransactionByHash o' txHash = Inr txData" and "4 \<le> length txData"
    and "Inputs_Unpack o' (drop 4 txData) = Inr chunks" and "list_all chunk_ok chunks"
    and "concat (map chunk_blocks chunks) = first # rest" and "first \<noteq> 0" and "rest \<noteq> []"
    and "source_HeaderByNumber o' first = Inr startBlockHeader"
    and "source_HeaderByNumber o' (last rest) = Inr endBlockHeader"
    and "2 < length topics"
  shows "proverGetPoe o' txHash topics
         = Returns (Some \<lparr>Poe = \<lparr>BatchHash = topics ! 2,
                                   NewStateRoot = Root endBlockHeader,
                                   PrevStateRoot = Root startBlockHeader\<rparr>,
                            BatchId = 0, StartBlock = first, EndBlock = last rest\<rparr>,
                    False, None)"
proof -
  have "foldl block_step (0, 0) (first # rest) = (first, last rest)"
    using assms(7,8) foldl_block_step_first[of first 0 rest] by simp
  then have "block_range chunks = Returns (first, last rest)"
    using assms(5,6) by (simp only: block_range_ok)
  then show ?thesis
    using assms by (simp add: proverGetPoe_def index_def)
qed

text \<open>A batch of one block leaves \<open>endBlock\<close> at 0.\<close>

lemma block_range_one_block: "block_range [one_block_chunk] = Returns (7, 0)"
  by code_simp

text \<open>
  C5 fails on a batch that commits a single block. The first block number goes to
  \<open>startBlock\<close> and only later ones go to \<open>endBlock\<close>, so for the one-block batch of block
  7 \<open>endBlock\<close> stays 0: the new state root is the root of block 0 (here 1000), not that
  of the last committed block 7 (here 1007), and the response says \<open>EndBlock = 0\<close>. The
  batch hash is topic 2 of the log, as the claim says.
\<close>

theorem proverGetPoe_one_block_batch:
  "proverGetPoe (simulation_operator [one_block_chunk]) (TxHash example_log) (Topics example_log)
     = Returns (Some \<lparr>Poe = \<lparr>BatchHash = 12, NewStateRoot = 1000, PrevStateRoot = 1007\<rparr>,
                        BatchId = 0, StartBlock = 7, EndBlock = 0\<rparr>,
                False, None)"
  by (simp add: proverGetPoe_def simulation_operator_def example_log_def index_def
      block_range_one_block)

subsection \<open>Out-of-range reads\<close>

text \<open>
  \<open>OnNewLog\<close> of \<open>operator/operator.go\<close> reads \<open>log.Data[:32]\<close> first: it panics when the
  data's capacity is below 32, and otherwise it panics only if the call on the aggregator
  does.
\<close>

lemma OnNewLog_legacy_short: "cap (Data log) < 32 \<Longrightarrow> OnNewLog_legacy ol log = Panics"
  by (simp add: OnNewLog_legacy_def slice_of_def)

lemma OnNewLog_legacy_in_range:
  assumes "32 \<le> cap (Data log)" and "OnNewLog_legacy ol log = Panics"
  shows "\<exists>req. legacy_SubmitStateHeader ol req = Panics"
  using assms
  by (auto simp: OnNewLog_legacy_def slice_of_def Let_def
           split: sum.splits outcome.splits option.splits)

text \<open>The loops over the chunks panic exactly when a chunk is not \<open>chunk_ok\<close>.\<close>

lemma chunk_loop_Panics:
  assumes "\<not> chunk_ok chunk"
  shows "chunk_loop st chunk = Panics"
proof (cases "elems chunk")
  case Nil
  then show ?thesis by (simp add: chunk_loop_def index_def)
next
  case (Cons count records)
  then have big: "length records + length (spare chunk) + 52 < unat count * 60"
    using assms by (simp add: chunk_ok_def)
  then obtain k where k: "unat count = Suc k" by (cases "unat count") auto
  have i: "index (elems chunk) 0 = Returns count"
    by (simp add: index_def Cons)
  have r: "slice_from chunk 1 = Returns (Bytes records (spare chunk))"
    by (simp add: slice_from_def Cons)
  have out: "slice_of (Bytes records (spare chunk)) (k * 60) (k * 60 + 8) = Panics"
    using big k by (simp add: slice_of_def cap_def)
  have "chunk_loop st chunk
          = foldl (\<lambda>acc i. case acc of
                     Panics \<Rightarrow> Panics
                   | Returns st' \<Rightarrow>
                       (case slice_of (Bytes records (spare chunk)) (i * 60) (i * 60 + 8) of
                          Panics \<Rightarrow> Panics
                        | Returns b \<Rightarrow>
                            Returns (block_step st' (BigEndian_Uint64 (elems b)))))
                  (Returns st) [0..<Suc k]"
    by (simp only: chunk_loop_def i r outcome.case k)
  then show ?thesis
    by (simp add: out split: outcome.splits)
qed

lemma chunk_loop_Panics_iff: "chunk_loop st chunk = Panics \<longleftrightarrow> \<not> chunk_ok chunk"
  by (cases "chunk_ok chunk") (simp_all add: chunk_loop_Panics chunk_loop_ok)

lemma chunks_fold_Panics_iff:
  "foldl (\<lambda>acc chunk. case acc of Panics \<Rightarrow> Panics | Returns st \<Rightarrow> chunk_loop st chunk)
         acc chunks = Panics
   \<longleftrightarrow> acc = Panics \<or> \<not> list_all chunk_ok chunks"
proof (induction chunks arbitrary: acc)
  case Nil
  then show ?case by simp
next
  case (Cons chunk chunks)
  show ?case
    by (cases acc) (auto simp: Cons.IH chunk_loop_Panics_iff)
qed

lemma block_range_Panics_iff: "block_range chunks = Panics \<longleftrightarrow> \<not> list_all chunk_ok chunks"
  by (simp add: block_range_def chunks_fold_Panics_iff)

text \<open>
  The steps of simulation-mode \<open>proverGetPoe\<close>, in the order of the code: the
  transaction is fetched, its data re-sliced and decoded, the chunks read, the two headers
  fetched, and \<open>topics[2]\<close> read last. A step that fails returns its error, or panics,
  whatever the later steps would do.
\<close>

lemma simulation_fetch_error:
  "cfg_Simulation o' \<Longrightarrow> source_TransactionByHash o' txHash = Inl e
   \<Longrightarrow> proverGetPoe o' txHash topics = Returns (None, False, Some e)"
  by (simp add: proverGetPoe_def)

lemma simulation_short_data:
  "cfg_Simulation o' \<Longrightarrow> source_TransactionByHash o' txHash = Inr txData
   \<Longrightarrow> length txData < 4 \<Longrightarrow> proverGetPoe o' txHash topics = Panics"
  by (simp add: proverGetPoe_def)

lemma simulation_unpack_error:
  "cfg_Simulation o' \<Longrightarrow> source_TransactionByHash o' txHash = Inr txData
   \<Longrightarrow> 4 \<le> length txData \<Longrightarrow> Inputs_Unpack o' (drop 4 txData) = Inl e
   \<Longrightarrow> proverGetPoe o' txHash topics = Returns (None, False, Some e)"
  by (simp add: proverGetPoe_def)

lemma simulation_chunk_panic:
  "cfg_Simulation o' \<Longrightarrow> source_TransactionByHash o' txHash = Inr txData
   \<Longrightarrow> 4 \<le> length txData \<Longrightarrow> Inputs_Unpack o' (drop 4 txData) = Inr chunks
   \<Longrightarrow> \<not> list_all chunk_ok chunks \<Longrightarrow> proverGetPoe o' txHash topics = Panics"
  using block_range_Panics_iff[of chunks] by (simp add: proverGetPoe_def)

lemma simulation_start_header_error:
  "cfg_Simulation o' \<Longrightarrow> source_TransactionByHash o' txHash = Inr txData
   \<Longrightarrow> 4 \<le> length txData \<Longrightarrow> Inputs_Unpack o' (drop 4 txData) = Inr chunks
   \<Longrightarrow> block_range chunks = Returns (startBlock, endBlock)
   \<Longrightarrow> source_HeaderByNumber o' startBlock = Inl e
   \<Longrightarrow> proverGetPoe o' txHash topics = Returns (None, False, Some e)"
  by (simp add: proverGetPoe_def)

lemma simulation_end_header_error:
  "cfg_Simulation o' \<Longrightarrow> source_TransactionByHash o' txHash = Inr txData
   \<Longrightarrow> 4 \<le> length txData \<Longrightarrow> Inputs_Unpack o' (drop 4 txData) = Inr chunks
   \<Longrightarrow> block_range chunks = Returns (startBlock, endBlock)
   \<Longrightarrow> source_HeaderByNumber o' startBlock = Inr h1
   \<Longrightarrow> source_HeaderByNumber o' endBlock = Inl e
   \<Longrightarrow> proverGetPoe o' txHash topics = Returns (None, False, Some e)"
  by (simp add: proverGetPoe_def)

lemma simulation_topics_panic:
  "cfg_Simulation o' \<Longrightarrow> source_TransactionByHash o' txHash = Inr txData
   \<Longrightarrow> 4 \<le> length txData \<Longrightarrow> Inputs_Unpack o' (drop 4 txData) = Inr chunks
   \<Longrightarrow> block_range chunks = Returns (startBlock, endBlock)
   \<Longrightarrow> source_HeaderByNumber o' startBlock = Inr h1
   \<Longrightarrow> source_HeaderByNumber o' endBlock = Inr h2
   \<Longrightarrow> length topics < 3
   \<Longrightarrow> proverGetPoe o' txHash topics = Panics"
  by (simp add: proverGetPoe_def index_def)

lemma simulation_in_range:
  assumes "cfg_Simulation o'" and "3 \<le> length topics" and "call_data_ok o' txHash"
  shows "proverGetPoe o' txHash topics \<noteq> Panics"
proof (cases "source_TransactionByHash o' txHash")
  case (Inl e)
  then show ?thesis using assms(1) by (simp add: proverGetPoe_def)
next
  case tx: (Inr txData)
  then have len: "4 \<le> length txData" using assms(3) by (simp add: call_data_ok_def)
  show ?thesis
  proof (cases "Inputs_Unpack o' (drop 4 txData)")
    case (Inl e)
    then show ?thesis using assms(1) tx len by (simp add: proverGetPoe_def)
  next
    case un: (Inr chunks)
    then have "list_all chunk_ok chunks" using assms(3) tx by (simp add: call_data_ok_def)
    then obtain startBlock endBlock where br: "block_range chunks = Returns (startBlock, endBlock)"
      using block_range_ok by (metis surj_pair)
    have t: "index topics 2 = Returns (topics ! 2)" using assms(2) by (simp add: index_def)
    show ?thesis
      using assms(1) tx len un br t
      by (simp add: proverGetPoe_def split: sum.splits)
  qed
qed

lemma proverGetPoe_live_Panics_iff:
  "\<not> cfg_Simulation o' \<Longrightarrow> proverGetPoe o' txHash topics = Panics \<longleftrightarrow> length topics < 3"
  by (auto simp: proverGetPoe_def index_def split: prod.splits option.splits)

text \<open>
  C10, as the code has it. \<open>OnNewLog\<close> of \<open>operator/operator.go\<close> reads \<open>log.Data[:32]\<close>
  with no check and panics on every log whose data has a capacity below 32 (so on every
  log shorter than 32 bytes whose capacity is its length); with a capacity of 32 or more
  the read is in range, and the handler panics only if the call on the aggregator does.
  Simulation-mode \<open>proverGetPoe\<close> reads \<open>topics[2]\<close> with no check, as its last step: a
  failure to fetch the transaction, to decode it or to fetch either header returns that
  error whatever the topics are, and with fewer than 3 topics it panics once all of these
  have succeeded. Before that it panics when the transaction has fewer than 4 bytes of
  data, or when a chunk lacks its count byte or the capacity for the records it counts.
  With at least 3 topics it does not panic provided the transaction has its 4 selector
  bytes and every chunk has its count byte and that capacity.
\<close>

theorem out_of_range_reads:
  "(cap (Data log) < 32 \<longrightarrow> OnNewLog_legacy ol log = Panics)
   \<and> (32 \<le> cap (Data log) \<and> OnNewLog_legacy ol log = Panics
        \<longrightarrow> (\<exists>req. legacy_SubmitStateHeader ol req = Panics))
   \<and> (cfg_Simulation o' \<and> source_TransactionByHash o' txHash = Inl e
        \<longrightarrow> proverGetPoe o' txHash topics = Returns (None, False, Some e))
   \<and> (cfg_Simulation o' \<and> source_TransactionByHash o' txHash = Inr txData
        \<and> length txData < 4
        \<longrightarrow> proverGetPoe o' txHash topics = Panics)
   \<and> (cfg_Simulation o' \<and> source_TransactionByHash o' txHash = Inr txData
        \<and> 4 \<le> length txData \<and> Inputs_Unpack o' (drop 4 txData) = Inl e
        \<longrightarrow> proverGetPoe o' txHash topics = Returns (None, False, Some e))
   \<and> (cfg_Simulation o' \<and> source_TransactionByHash o' txHash = Inr txData
        \<and> 4 \<le> length txData \<and> Inputs_Unpack o' (drop 4 txData) = Inr chunks
        \<and> \<not> list_all chunk_ok chunks
        \<longrightarrow> proverGetPoe o' txHash topics = Panics)
   \<and> (cfg_Simulation o' \<and> source_TransactionByHash o' txHash = Inr txData
        \<and> 4 \<le> length txData \<and> Inputs_Unpack o' (drop 4 txData) = Inr chunks
        \<and> block_range chunks = Returns (startBlock, endBlock)
        \<and> source_HeaderByNumber o' startBlock = Inl e
        \<longrightarrow> proverGetPoe o' txHash topics = Returns (None, False, Some e))
   \<and> (cfg_Simulation o' \<and> source_TransactionByHash o' txHash = Inr txData
        \<and> 4 \<le> length txData \<and> Inputs_Unpack o' (drop 4 txData) = Inr chunks
        \<and> block_range chunks = Returns (startBlock, endBlock)
        \<and> source_HeaderByNumber o' startBlock = Inr h1
        \<and> source_HeaderByNumber o' endBlock = Inl e
        \<longrightarrow> proverGetPoe o' txHash topics = Returns (None, False, Some e))
   \<and> (cfg_Simulation o' \<and> source_TransactionByHash o' txHash = Inr txData
        \<and> 4 \<le> length txData \<and> Inputs_Unpack o' (drop 4 txData) = Inr chunks
        \<and> block_range chunks = Returns (startBlock, endBlock)
        \<and> source_HeaderByNumber o' startBlock = Inr h1
        \<and> source_HeaderByNumber o' endBlock = Inr h2
        \<and> length topics < 3
        \<longrightarrow> proverGetPoe o' txHash topics = Panics)
   \<and> (cfg_Simulation o' \<and> 3 \<le> length topics \<and> call_data_ok o' txHash
        \<longrightarrow> proverGetPoe o' txHash topics \<noteq> Panics)"
proof (intro conjI impI; (elim conjE)?)
  show "OnNewLog_legacy ol log = Panics" if "cap (Data log) < 32"
    using that by (rule OnNewLog_legacy_short)
  show "\<exists>req. legacy_SubmitStateHeader ol req = Panics"
    if "32 \<le> cap (Data log)" and "OnNewLog_legacy ol log = Panics"
    using that by (rule OnNewLog_legacy_in_range)
qed (simp_all add: simulation_fetch_error simulation_short_data simulation_unpack_error
      simulation_chunk_panic simulation_start_header_error simulation_end_header_error
      simulation_topics_panic simulation_in_range)

lemma block_range_two_blocks: "block_range [two_block_chunk] = Returns (7, 258)"
  by code_simp

lemma chunk_ok_examples:
  "chunk_ok two_block_chunk" "chunk_ok spare_chunk" "\<not> chunk_ok (Bytes [] [])"
  by (simp_all add: chunk_ok_def two_block_chunk_def spare_chunk_def)

lemma simulation_operator_fields:
  "cfg_Simulation (simulation_operator chunks)"
  "source_TransactionByHash (simulation_operator chunks) txHash = Inr [0, 0, 0, 0]"
  "Inputs_Unpack (simulation_operator chunks) txData = Inr chunks"
  "source_HeaderByNumber (simulation_operator chunks) n
     = Inr \<lparr>Number = sint n, Root = 1000 + ucast n\<rparr>"
  by (simp_all add: simulation_operator_def)

text \<open>
  Each case at an input: a log of 3 data bytes; the example log, with an aggregator
  that returns and with one that panics; a transaction that is not found, one of 3 bytes,
  one that does not decode, one with an empty chunk; a header that is missing, for the
  first block and for the last; two topics; and three topics, with a chunk read within its
  length and with one read within its spare capacity.
\<close>

theorem out_of_range_reads_witness:
  "OnNewLog_legacy legacy_operator (example_log\<lparr>Data := Bytes [1, 2, 3] []\<rparr>) = Panics
   \<and> OnNewLog_legacy legacy_operator example_log \<noteq> Panics
   \<and> OnNewLog_legacy (legacy_operator\<lparr>legacy_SubmitStateHeader := \<lambda>_. Panics\<rparr>) example_log
       = Panics
   \<and> proverGetPoe ((simulation_operator [two_block_chunk])
                      \<lparr>source_TransactionByHash := \<lambda>_. Inl (Err ''not found'')\<rparr>) 1 []
       = Returns (None, False, Some (Err ''not found''))
   \<and> proverGetPoe ((simulation_operator [two_block_chunk])
                      \<lparr>source_TransactionByHash := \<lambda>_. Inr [0, 0, 0]\<rparr>) 1 [10, 11, 12]
       = Panics
   \<and> proverGetPoe ((simulation_operator [two_block_chunk])
                      \<lparr>Inputs_Unpack := \<lambda>_. Inl (Err ''bad call data'')\<rparr>) 1 []
       = Returns (None, False, Some (Err ''bad call data''))
   \<and> proverGetPoe (simulation_operator [Bytes [] []]) 1 [10, 11, 12] = Panics
   \<and> proverGetPoe ((simulation_operator [two_block_chunk])
                      \<lparr>source_HeaderByNumber := \<lambda>_. Inl (Err ''no header'')\<rparr>) 1 []
       = Returns (None, False, Some (Err ''no header''))
   \<and> proverGetPoe ((simulation_operator [two_block_chunk])
                      \<lparr>source_HeaderByNumber :=
                         \<lambda>n. if n = 7 then Inr \<lparr>Number = 7, Root = 1007\<rparr>
                              else Inl (Err ''no header'')\<rparr>) 1 []
       = Returns (None, False, Some (Err ''no header''))
   \<and> proverGetPoe (simulation_operator [two_block_chunk]) 1 [10, 11] = Panics
   \<and> proverGetPoe (simulation_operator [two_block_chunk]) 1 [10, 11, 12] \<noteq> Panics
   \<and> proverGetPoe (simulation_operator [spare_chunk]) 1 [10, 11, 12] \<noteq> Panics"
proof -
  note f = simulation_operator_fields
  have c32: "cap (Data example_log) = 32" "cap (Bytes [1, 2, 3] []) = 3"
    by (simp_all add: example_log_def cap_def)
  have 1: "OnNewLog_legacy legacy_operator (example_log\<lparr>Data := Bytes [1, 2, 3] []\<rparr>) = Panics"
    using out_of_range_reads[where log = "example_log\<lparr>Data := Bytes [1, 2, 3] []\<rparr>"
        and ol = legacy_operator]
    by (simp add: c32)
  have 2: "OnNewLog_legacy legacy_operator example_log \<noteq> Panics"
    using out_of_range_reads[where log = example_log and ol = legacy_operator]
    by (auto simp: c32 legacy_operator_def)
  have 3: "OnNewLog_legacy (legacy_operator\<lparr>legacy_SubmitStateHeader := \<lambda>_. Panics\<rparr>) example_log
             = Panics"
    by (simp add: OnNewLog_legacy_def legacy_operator_def example_log_def slice_of_def cap_def
        Let_def)
  have 4: "proverGetPoe ((simulation_operator [two_block_chunk])
                      \<lparr>source_TransactionByHash := \<lambda>_. Inl (Err ''not found'')\<rparr>) 1 []
       = Returns (None, False, Some (Err ''not found''))"
    using out_of_range_reads[where o' = "(simulation_operator [two_block_chunk])
                      \<lparr>source_TransactionByHash := \<lambda>_. Inl (Err ''not found'')\<rparr>"
        and txHash = 1 and topics = "[]" and e = "Err ''not found''"]
    by (simp add: f)
  have 5: "proverGetPoe ((simulation_operator [two_block_chunk])
                      \<lparr>source_TransactionByHash := \<lambda>_. Inr [0, 0, 0]\<rparr>) 1 [10, 11, 12]
       = Panics"
    using out_of_range_reads[where o' = "(simulation_operator [two_block_chunk])
                      \<lparr>source_TransactionByHash := \<lambda>_. Inr [0, 0, 0]\<rparr>"
        and txHash = 1 and topics = "[10, 11, 12]" and txData = "[0, 0, 0]"]
    by (simp add: f)
  have 6: "proverGetPoe ((simulation_operator [two_block_chunk])
                      \<lparr>Inputs_Unpack := \<lambda>_. Inl (Err ''bad call data'')\<rparr>) 1 []
       = Returns (None, False, Some (Err ''bad call data''))"
    using out_of_range_reads[where o' = "(simulation_operator [two_block_chunk])
                      \<lparr>Inputs_Unpack := \<lambda>_. Inl (Err ''bad call data'')\<rparr>"
        and txHash = 1 and topics = "[]" and txData = "[0, 0, 0, 0]"
        and e = "Err ''bad call data''"]
    by (simp add: f)
  have 7: "proverGetPoe (simulation_operator [Bytes [] []]) 1 [10, 11, 12] = Panics"
    using out_of_range_reads[where o' = "simulation_operator [Bytes [] []]"
        and txHash = 1 and topics = "[10, 11, 12]" and txData = "[0, 0, 0, 0]"
        and chunks = "[Bytes [] []]"]
    by (simp add: f chunk_ok_examples)
  have 8: "proverGetPoe ((simulation_operator [two_block_chunk])
                      \<lparr>source_HeaderByNumber := \<lambda>_. Inl (Err ''no header'')\<rparr>) 1 []
       = Returns (None, False, Some (Err ''no header''))"
    using out_of_range_reads[where o' = "(simulation_operator [two_block_chunk])
                      \<lparr>source_HeaderByNumber := \<lambda>_. Inl (Err ''no header'')\<rparr>"
        and txHash = 1 and topics = "[]" and txData = "[0, 0, 0, 0]"
        and chunks = "[two_block_chunk]" and startBlock = 7 and endBlock = 258
        and e = "Err ''no header''"]
    by (simp add: f block_range_two_blocks)
  have 9: "proverGetPoe ((simulation_operator [two_block_chunk])
                      \<lparr>source_HeaderByNumber :=
                         \<lambda>n. if n = 7 then Inr \<lparr>Number = 7, Root = 1007\<rparr>
                              else Inl (Err ''no header'')\<rparr>) 1 []
       = Returns (None, False, Some (Err ''no header''))"
    using out_of_range_reads[where o' = "(simulation_operator [two_block_chunk])
                      \<lparr>source_HeaderByNumber :=
                         \<lambda>n. if n = 7 then Inr \<lparr>Number = 7, Root = 1007\<rparr>
                              else Inl (Err ''no header'')\<rparr>"
        and txHash = 1 and topics = "[]" and txData = "[0, 0, 0, 0]"
        and chunks = "[two_block_chunk]" and startBlock = 7 and endBlock = 258
        and ?h1.0 = "\<lparr>Number = 7, Root = 1007\<rparr>" and e = "Err ''no header''"]
    by (simp add: f block_range_two_blocks)
  have 10: "proverGetPoe (simulation_operator [two_block_chunk]) 1 [10, 11] = Panics"
    using out_of_range_reads[where o' = "simulation_operator [two_block_chunk]"
        and txHash = 1 and topics = "[10, 11]" and txData = "[0, 0, 0, 0]"
        and chunks = "[two_block_chunk]" and startBlock = 7 and endBlock = 258
        and ?h1.0 = "\<lparr>Number = 7, Root = 1007\<rparr>"
        and ?h2.0 = "\<lparr>Number = 258, Root = 1258\<rparr>"]
    by (simp add: f block_range_two_blocks)
  have 11: "proverGetPoe (simulation_operator [two_block_chunk]) 1 [10, 11, 12] \<noteq> Panics"
    using out_of_range_reads[where o' = "simulation_operator [two_block_chunk]"
        and txHash = 1 and topics = "[10, 11, 12]"]
    by (simp add: f call_data_ok_def chunk_ok_examples)
  have 12: "proverGetPoe (simulation_operator [spare_chunk]) 1 [10, 11, 12] \<noteq> Panics"
    using out_of_range_reads[where o' = "simulation_operator [spare_chunk]"
        and txHash = 1 and topics = "[10, 11, 12]"]
    by (simp add: f call_data_ok_def chunk_ok_examples)
  show ?thesis using 1 2 3 4 5 6 7 8 9 10 11 12 by blast
qed

text \<open>
  C10 as stated fails in both directions. A log with 32 data bytes and 3 topics whose
  transaction decodes to an empty chunk makes simulation-mode \<open>proverGetPoe\<close>, and with it
  \<open>OnNewLog\<close>, panic on \<open>chunk[0]\<close>. And a log with no topics whose transaction cannot be
  fetched gets an error, not a panic.
\<close>

theorem out_of_range_reads_counterexample:
  "32 \<le> length (elems (Data example_log)) \<and> 3 \<le> length (Topics example_log)
   \<and> proverGetPoe (simulation_operator [Bytes [] []]) (TxHash example_log) (Topics example_log)
       = Panics
   \<and> OnNewLog (simulation_operator [Bytes [] []]) example_log = Panics
   \<and> proverGetPoe ((simulation_operator [])\<lparr>source_TransactionByHash := \<lambda>_. Inl (Err ''not found'')\<rparr>)
         (TxHash example_log) []
       = Returns (None, False, Some (Err ''not found''))"
proof -
  have p: "proverGetPoe (simulation_operator [Bytes [] []]) (TxHash example_log)
             (Topics example_log) = Panics"
    by (simp add: proverGetPoe_def simulation_operator_def block_range_def chunk_loop_def
        index_def)
  have h: "Client_HeaderByNumber (simulation_operator [Bytes [] []])
             = Inr \<lparr>Number = 160, Root = 0\<rparr>"
    by (simp add: simulation_operator_def)
  have q: "OnNewLog (simulation_operator [Bytes [] []]) example_log = Panics"
    by (simp add: OnNewLog_def p h)
  show ?thesis
    using p q by (simp add: example_log_def proverGetPoe_def simulation_operator_def)
qed

section \<open>Properties of the attestation renewal\<close>

subsection \<open>The wait before a renewal\<close>

lemma sint_word_of_int_64:
  "- (2 ^ 63) \<le> k \<Longrightarrow> k < 2 ^ 63 \<Longrightarrow> sint (word_of_int k :: 64 word) = k"
  by (simp add: sint_sbintrunc' signed_take_bit_int_eq_self)

lemma slept_registerAttestationReport: "slept (snd (registerAttestationReport a pk)) = 0"
  by (simp add: registerAttestationReport_def split: sum.splits option.splits)

lemma slept_append: "slept (xs @ ys) = slept xs + slept ys"
  by (induction xs rule: slept.induct) simp_all

lemma renewal_sleep_in_range:
  fixes D N :: int
  assumes "- (2 ^ 63) \<le> D" and "D < 2 ^ 63" and "- (2 ^ 63) \<le> N" and "N + 300 < 2 ^ 63"
    and "- (2 ^ 63) \<le> D - N - 300" and "(D - N - 300) * 1000000000 < 2 ^ 63"
  shows "renewal_sleep (word_of_int D) (word_of_int N)
         = (if 0 < D - N - 300 then [Sleep (word_of_int ((D - N - 300) * 1000000000))] else [])"
    and "0 < D - N - 300 \<Longrightarrow> sint (word_of_int ((D - N - 300) * 1000000000) :: int64) = (D - N - 300) * 1000000000"
proof -
  have d: "sint (word_of_int D :: int64) = D" using assms by (simp add: sint_word_of_int_64)
  have "(word_of_int N + 300 :: int64) = word_of_int (N + 300)" by simp
  then have n: "sint (word_of_int N + 300 :: int64) = N + 300"
    using assms by (simp only: sint_word_of_int_64)
  have w: "(word_of_int D - word_of_int N - 300) * (1000000000 :: int64)
           = word_of_int ((D - N - 300) * 1000000000)" by simp
  show "renewal_sleep (word_of_int D) (word_of_int N)
         = (if 0 < D - N - 300 then [Sleep (word_of_int ((D - N - 300) * 1000000000))] else [])"
    unfolding renewal_sleep_def d n w by auto
  show "sint (word_of_int ((D - N - 300) * 1000000000) :: int64) = (D - N - 300) * 1000000000"
    if "0 < D - N - 300"
    using that assms(6) by (intro sint_word_of_int_64) auto
qed

text \<open>
  C6, as the code has it. The deadline, the clock and the wait are \<open>int64\<close> seconds and the
  sleep is an \<open>int64\<close> of nanoseconds. For every attestation record with a registration
  time and a validity window that are not negative and whose sum fits an \<open>int64\<close>, a clock
  \<open>now\<close> with \<open>0 \<le> now\<close> and \<open>now + 300\<close> in range, and a wait
  \<open>deadline - now - 300\<close> below \<open>2^63\<close> nanoseconds (about 292 years), \<open>checkNext\<close> reads the
  two values, sleeps \<open>max(0, deadline - now - 300)\<close> seconds and then re-registers; with no
  sleep at all when the deadline is at most 300 seconds away or past. With a validity window
  of 1000 seconds the renewal is issued no earlier than 700 seconds after the registration.
\<close>

theorem checkNext_renewal_timing:
  assumes "AttestValiditySeconds a = Inr validSecs" and "AttestedProvers_Time a = Inr proverTime"
    and "now = sint (time_Now_Unix a)"
    and "wait = proverTime + validSecs - now - 300"
    and "0 \<le> proverTime" and "0 \<le> validSecs" and "proverTime + validSecs < 2 ^ 63"
    and "0 \<le> now" and "now + 300 < 2 ^ 63"
    and "wait * 1000000000 < 2 ^ 63"
  shows "checkNext a
           = (fst (registerAttestationReport a (PubKey_Serialize a)),
              [AttestValiditySeconds_called, AttestedProvers_called]
              @ (if 0 < wait then [Sleep (word_of_int (wait * 1000000000))] else [])
              @ snd (registerAttestationReport a (PubKey_Serialize a)))
         \<and> slept (snd (checkNext a)) = max 0 wait * 1000000000
         \<and> (validSecs = 1000
              \<longrightarrow> (proverTime + 700) * 1000000000 \<le> now * 1000000000 + slept (snd (checkNext a)))"
proof -
  let ?D = "proverTime + validSecs"
  have dl: "Int64 proverTime + Int64 validSecs = word_of_int ?D" by (simp add: Int64_def)
  have nw: "time_Now_Unix a = word_of_int now" using assms(3) by simp
  have r: "- (2 ^ 63) \<le> ?D" "?D < 2 ^ 63" "- (2 ^ 63) \<le> now" "now + 300 < 2 ^ 63"
    "- (2 ^ 63) \<le> ?D - now - 300" "(?D - now - 300) * 1000000000 < 2 ^ 63"
    using assms(4-10) by simp_all
  note rs = renewal_sleep_in_range[OF r]
  have rs1: "renewal_sleep (Int64 proverTime + Int64 validSecs) (time_Now_Unix a)
             = (if 0 < wait then [Sleep (word_of_int (wait * 1000000000))] else [])"
    using rs(1) by (simp only: dl nw assms(4))
  have 1: "checkNext a
           = (fst (registerAttestationReport a (PubKey_Serialize a)),
              [AttestValiditySeconds_called, AttestedProvers_called]
              @ (if 0 < wait then [Sleep (word_of_int (wait * 1000000000))] else [])
              @ snd (registerAttestationReport a (PubKey_Serialize a)))"
    by (simp add: checkNext_def Let_def assms(1,2) rs1)
  have 2: "slept (snd (checkNext a)) = max 0 wait * 1000000000"
  proof (cases "0 < wait")
    case True
    then have "sint (word_of_int (wait * 1000000000) :: int64) = wait * 1000000000"
      using rs(2) assms(4) by simp
    then show ?thesis using True
      by (simp add: 1 slept_append slept_registerAttestationReport)
  next
    case False
    then show ?thesis by (simp add: 1 slept_append slept_registerAttestationReport)
  qed
  have 3: "validSecs = 1000
           \<longrightarrow> (proverTime + 700) * 1000000000 \<le> now * 1000000000 + slept (snd (checkNext a))"
  proof
    assume v: "validSecs = 1000"
    have "wait * 1000000000 \<le> max 0 wait * 1000000000" by simp
    moreover have "(proverTime + 700) * 1000000000 = now * 1000000000 + wait * 1000000000"
      using assms(4) v by (simp add: algebra_simps)
    ultimately show "(proverTime + 700) * 1000000000
                     \<le> now * 1000000000 + slept (snd (checkNext a))"
      unfolding 2 by linarith
  qed
  show ?thesis using 1 2 3 by blast
qed

lemma registerAttestationReport_example:
  "registerAttestationReport (example_attestation v t n) pk
     = (None, [SubmitLivenessProof_called [42], WaitTx_called 77])"
  by (simp add: registerAttestationReport_def proverGetAttestationReport_def
      example_attestation_def)

theorem checkNext_renewal_timing_witness:
  "checkNext (example_attestation 1000 1700000000 1700000100)
     = (None, [AttestValiditySeconds_called, AttestedProvers_called, Sleep 600000000000,
               SubmitLivenessProof_called [42], WaitTx_called 77])
   \<and> slept (snd (checkNext (example_attestation 1000 1700000000 1700000100))) = 600 * 1000000000
   \<and> checkNext (example_attestation 1000 1700000000 1700000800)
     = (None, [AttestValiditySeconds_called, AttestedProvers_called,
               SubmitLivenessProof_called [42], WaitTx_called 77])"
proof -
  have n1: "sint (time_Now_Unix (example_attestation 1000 1700000000 1700000100)) = 1700000100"
    by (simp add: example_attestation_def)
  have n2: "sint (time_Now_Unix (example_attestation 1000 1700000000 1700000800)) = 1700000800"
    by (simp add: example_attestation_def)
  have a: "AttestValiditySeconds (example_attestation 1000 1700000000 n) = Inr 1000"
    "AttestedProvers_Time (example_attestation 1000 1700000000 n) = Inr 1700000000" for n
    by (simp_all add: example_attestation_def)
  show ?thesis
    using checkNext_renewal_timing[OF a, of 1700000100 1700000100 600]
      checkNext_renewal_timing[OF a, of 1700000800 1700000800 "-100"]
    by (simp add: n1 n2 registerAttestationReport_example)
qed

text \<open>
  C6 as stated fails where the nanoseconds overflow: with a validity window of
  \<open>10^10\<close> seconds the wait is 9999999700 seconds, the \<open>int64\<close> product with
  \<open>time.Second\<close> wraps to a negative duration, and the renewal is issued at once.
\<close>

theorem checkNext_renewal_overflow_counterexample:
  "checkNext (example_attestation 10000000000 1700000000 1700000000)
     = (None, [AttestValiditySeconds_called, AttestedProvers_called,
               Sleep 9999999700000000000,
               SubmitLivenessProof_called [42], WaitTx_called 77])
   \<and> sint (9999999700000000000 :: int64) = - 8446744373709551616
   \<and> slept (snd (checkNext (example_attestation 10000000000 1700000000 1700000000))) = 0
   \<and> max 0 (1700000000 + 10000000000 - 1700000000 - 300) = (9999999700 :: int)"
proof -
  have s: "sint (9999999700000000000 :: int64) = - 8446744373709551616"
    by simp
  have c: "checkNext (example_attestation 10000000000 1700000000 1700000000)
     = (None, [AttestValiditySeconds_called, AttestedProvers_called,
               Sleep 9999999700000000000,
               SubmitLivenessProof_called [42], WaitTx_called 77])"
  proof -
    have f: "AttestValiditySeconds (example_attestation 10000000000 1700000000 1700000000)
               = Inr 10000000000"
      "AttestedProvers_Time (example_attestation 10000000000 1700000000 1700000000)
               = Inr 1700000000"
      "time_Now_Unix (example_attestation 10000000000 1700000000 1700000000) = 1700000000"
      by (simp_all add: example_attestation_def)
    show ?thesis
      by (simp add: checkNext_def Let_def f registerAttestationReport_example renewal_sleep_def
          Int64_def)
  qed
  show ?thesis by (simp add: c s)
qed

section \<open>Properties of the startup\<close>

lemma registerAttestationReport_no_Run:
  "taskFetcher_Run \<notin> set (snd (registerAttestationReport a pk))"
  by (simp add: registerAttestationReport_def split: sum.splits option.splits)

lemma RegisterAttestationReport_no_Run:
  "taskFetcher_Run \<notin> set (snd (RegisterAttestationReport a))"
  using registerAttestationReport_no_Run[of a "PubKey_Serialize a"]
  by (simp add: RegisterAttestationReport_def Let_def split: sum.splits option.splits)

lemma checkIsRegistered_events: "snd (checkIsRegistered s) = [IsOperatorRegistered_called]"
  by (simp add: checkIsRegistered_def split: sum.splits)

lemma checkIsRegistered_ok:
  "fst (checkIsRegistered s) = Inr opId
   \<longleftrightarrow> IsOperatorRegistered s = Inr True \<and> GetOperatorId s = Inr opId"
  by (auto simp: checkIsRegistered_def split: sum.splits)

lemma Start_runs:
  assumes "taskFetcher_Run \<in> set (snd (Start s))"
  shows "IsOperatorRegistered s = Inr True
         \<and> fst (RegisterAttestationReport (attestation s)) = None
         \<and> snd (Start s)
             = Simulation_called # IsOperatorRegistered_called
               # snd (RegisterAttestationReport (attestation s))
               @ [metrics_Start, taskFetcher_Run]"
proof -
  obtain isSim where sim: "TEE_Simulation s = Inr isSim" "isSim = startup_Simulation s"
    using assms by (cases "TEE_Simulation s") (auto simp: Start_def split: if_splits)
  obtain opId where c: "fst (checkIsRegistered s) = Inr opId"
    using assms sim
    by (cases "fst (checkIsRegistered s)")
       (auto simp: Start_def Let_def checkIsRegistered_events)
  have r: "fst (RegisterAttestationReport (attestation s)) = None"
    using assms sim c RegisterAttestationReport_no_Run[of "attestation s"]
    by (cases "fst (RegisterAttestationReport (attestation s))")
       (auto simp: Start_def Let_def checkIsRegistered_events)
  show ?thesis
    using sim c r checkIsRegistered_ok[of s opId]
    by (simp add: Start_def Let_def checkIsRegistered_events)
qed

lemma Start_not_registered:
  assumes "IsOperatorRegistered s \<noteq> Inr True"
  shows "fst (Start s) \<noteq> None \<and> taskFetcher_Run \<notin> set (snd (Start s))"
proof -
  have n: "taskFetcher_Run \<notin> set (snd (Start s))"
    using assms Start_runs by blast
  have "\<exists>e. fst (checkIsRegistered s) = Inl e"
    using assms by (cases "fst (checkIsRegistered s)") (auto simp: checkIsRegistered_ok)
  then have "fst (Start s) \<noteq> None"
    by (auto simp: Start_def Let_def split: sum.splits)
  then show ?thesis using n by simp
qed

lemma RegisterAttestationReport_legacy_no_Run:
  "taskFetcher_Run \<notin> set (snd (RegisterAttestationReport_legacy s))"
  by (simp add: RegisterAttestationReport_legacy_def Let_def split: sum.splits option.splits)

lemma checkIsRegistered_legacy_events:
  "snd (checkIsRegistered_legacy s) = [IsOperatorRegistered_called]"
  by (simp add: checkIsRegistered_legacy_def split: sum.splits)

lemma checkIsRegistered_legacy_ok:
  "fst (checkIsRegistered_legacy s) = None \<longleftrightarrow> legacy_IsOperatorRegistered s = Inr True"
  by (auto simp: checkIsRegistered_legacy_def split: sum.splits)

lemma Start_legacy_runs:
  assumes "taskFetcher_Run \<in> set (snd (Start_legacy s))"
  shows "legacy_IsOperatorRegistered s = Inr True
         \<and> fst (RegisterAttestationReport_legacy s) = None
         \<and> snd (Start_legacy s)
             = RegisterAsOperator_called # RegisterOperatorInQuorum_called
               # snd (RegisterAttestationReport_legacy s)
               @ [IsOperatorRegistered_called, taskFetcher_Run]"
proof -
  have r1: "RegisterAsOperator s = None"
    using assms
    by (cases "RegisterAsOperator s")
       (auto simp: Start_legacy_def Let_def RegisterOperatorWithEigenlayer_def)
  have r2: "RegisterOperatorInQuorum s = None"
    using assms r1
    by (cases "RegisterOperatorInQuorum s")
       (auto simp: Start_legacy_def Let_def RegisterOperatorWithEigenlayer_def
          RegisterOperatorWithAvs_def)
  have r3: "fst (RegisterAttestationReport_legacy s) = None"
    using assms r1 r2 RegisterAttestationReport_legacy_no_Run[of s]
    by (cases "fst (RegisterAttestationReport_legacy s)")
       (auto simp: Start_legacy_def Let_def RegisterOperatorWithEigenlayer_def
          RegisterOperatorWithAvs_def)
  have c: "fst (checkIsRegistered_legacy s) = None"
    using assms r1 r2 r3 RegisterAttestationReport_legacy_no_Run[of s]
    by (cases "fst (checkIsRegistered_legacy s)")
       (auto simp: Start_legacy_def Let_def RegisterOperatorWithEigenlayer_def
          RegisterOperatorWithAvs_def checkIsRegistered_legacy_events)
  show ?thesis
    using r1 r2 r3 c checkIsRegistered_legacy_ok[of s]
    by (simp add: Start_legacy_def Let_def RegisterOperatorWithEigenlayer_def
        RegisterOperatorWithAvs_def checkIsRegistered_legacy_events)
qed

lemma Start_legacy_not_registered:
  assumes "legacy_IsOperatorRegistered s \<noteq> Inr True"
  shows "fst (Start_legacy s) \<noteq> None \<and> taskFetcher_Run \<notin> set (snd (Start_legacy s))"
proof -
  have n: "taskFetcher_Run \<notin> set (snd (Start_legacy s))"
    using assms Start_legacy_runs by blast
  have "fst (checkIsRegistered_legacy s) \<noteq> None"
    using assms by (simp add: checkIsRegistered_legacy_ok)
  then have "fst (Start_legacy s) \<noteq> None"
    by (auto simp: Start_legacy_def Let_def split: option.splits)
  then show ?thesis using n by simp
qed

text \<open>
  C7. In both operators \<open>taskFetcher.Run\<close> is the last call of \<open>Start\<close>, and it is made
  only when the registry answered that the operator is registered and the first
  attestation pass returned without error, with their calls before it; when the
  registry does not answer that the operator is registered, \<open>Start\<close> returns an error and
  \<open>taskFetcher.Run\<close> is never called.
\<close>

theorem Start_run_after_registration:
  "(taskFetcher_Run \<in> set (snd (Start s))
      \<longrightarrow> IsOperatorRegistered s = Inr True
          \<and> fst (RegisterAttestationReport (attestation s)) = None
          \<and> snd (Start s)
              = Simulation_called # IsOperatorRegistered_called
                # snd (RegisterAttestationReport (attestation s))
                @ [metrics_Start, taskFetcher_Run])
   \<and> (IsOperatorRegistered s \<noteq> Inr True
      \<longrightarrow> fst (Start s) \<noteq> None \<and> taskFetcher_Run \<notin> set (snd (Start s)))
   \<and> (taskFetcher_Run \<in> set (snd (Start_legacy l))
      \<longrightarrow> legacy_IsOperatorRegistered l = Inr True
          \<and> fst (RegisterAttestationReport_legacy l) = None
          \<and> snd (Start_legacy l)
              = RegisterAsOperator_called # RegisterOperatorInQuorum_called
                # snd (RegisterAttestationReport_legacy l)
                @ [IsOperatorRegistered_called, taskFetcher_Run])
   \<and> (legacy_IsOperatorRegistered l \<noteq> Inr True
      \<longrightarrow> fst (Start_legacy l) \<noteq> None \<and> taskFetcher_Run \<notin> set (snd (Start_legacy l)))"
  using Start_runs[of s] Start_not_registered[of s] Start_legacy_runs[of l]
    Start_legacy_not_registered[of l]
  by blast

text \<open>The first attestation pass returns without error when the operator is found
  registered with the liveness verifier, or its registration was submitted and confirmed.\<close>

lemma RegisterAttestationReport_ok:
  "fst (RegisterAttestationReport a) = None
   \<longleftrightarrow> length (PubKey_Serialize a) = 64
       \<and> (VerifyLivenessProof a = Inr True
            \<or> VerifyLivenessProof a = Inr False
              \<and> fst (registerAttestationReport a (PubKey_Serialize a)) = None)"
  by (auto simp: RegisterAttestationReport_def Let_def split: sum.splits option.splits)

lemma RegisterAttestationReport_example:
  "RegisterAttestationReport (example_attestation v t n)
     = (None, [VerifyLivenessProof_called, go_renewal_loop])"
  by (simp add: RegisterAttestationReport_def example_attestation_def)

lemma Start_example:
  "Start (example_startup (Inr True))
     = (None, [Simulation_called, IsOperatorRegistered_called, VerifyLivenessProof_called,
               go_renewal_loop, metrics_Start, taskFetcher_Run])"
  "Start (example_startup (Inr False))
     = (Some (Err ''operator is not registered''),
        [Simulation_called, IsOperatorRegistered_called])"
  by (simp_all add: Start_def Let_def example_startup_def checkIsRegistered_def
      RegisterAttestationReport_example)

lemma RegisterAttestationReport_legacy_example:
  "RegisterAttestationReport_legacy (example_startup_legacy r)
     = (None, [IsProverRegistered_called, Register_called [42], WaitTx_called 77])"
  by (simp add: RegisterAttestationReport_legacy_def example_startup_legacy_def)

lemma Start_legacy_example:
  "Start_legacy (example_startup_legacy (Inr True))
     = (None, [RegisterAsOperator_called, RegisterOperatorInQuorum_called,
               IsProverRegistered_called, Register_called [42], WaitTx_called 77,
               IsOperatorRegistered_called, taskFetcher_Run])"
  "Start_legacy (example_startup_legacy (Inr False))
     = (Some (Err ''operator is not registered''),
        [RegisterAsOperator_called, RegisterOperatorInQuorum_called,
         IsProverRegistered_called, Register_called [42], WaitTx_called 77,
         IsOperatorRegistered_called])"
proof -
  have f: "RegisterAsOperator (example_startup_legacy r) = None"
    "RegisterOperatorInQuorum (example_startup_legacy r) = None"
    "legacy_IsOperatorRegistered (example_startup_legacy r) = r"
    "legacy_taskFetcher_Run_result (example_startup_legacy r) = None" for r
    by (simp_all add: example_startup_legacy_def)
  show "Start_legacy (example_startup_legacy (Inr True))
     = (None, [RegisterAsOperator_called, RegisterOperatorInQuorum_called,
               IsProverRegistered_called, Register_called [42], WaitTx_called 77,
               IsOperatorRegistered_called, taskFetcher_Run])"
    by (simp add: Start_legacy_def Let_def RegisterAttestationReport_legacy_example
        RegisterOperatorWithEigenlayer_def RegisterOperatorWithAvs_def
        checkIsRegistered_legacy_def f)
  show "Start_legacy (example_startup_legacy (Inr False))
     = (Some (Err ''operator is not registered''),
        [RegisterAsOperator_called, RegisterOperatorInQuorum_called,
         IsProverRegistered_called, Register_called [42], WaitTx_called 77,
         IsOperatorRegistered_called])"
    by (simp add: Start_legacy_def Let_def RegisterAttestationReport_legacy_example
        RegisterOperatorWithEigenlayer_def RegisterOperatorWithAvs_def
        checkIsRegistered_legacy_def f)
qed

theorem Start_run_after_registration_witness:
  "taskFetcher_Run \<in> set (snd (Start (example_startup (Inr True))))
   \<and> IsOperatorRegistered (example_startup (Inr True)) = Inr True
   \<and> fst (RegisterAttestationReport (attestation (example_startup (Inr True)))) = None
   \<and> IsOperatorRegistered (example_startup (Inr False)) \<noteq> Inr True
   \<and> fst (Start (example_startup (Inr False))) \<noteq> None
   \<and> taskFetcher_Run \<notin> set (snd (Start (example_startup (Inr False))))
   \<and> taskFetcher_Run \<in> set (snd (Start_legacy (example_startup_legacy (Inr True))))
   \<and> legacy_IsOperatorRegistered (example_startup_legacy (Inr True)) = Inr True
   \<and> fst (RegisterAttestationReport_legacy (example_startup_legacy (Inr True))) = None
   \<and> legacy_IsOperatorRegistered (example_startup_legacy (Inr False)) \<noteq> Inr True
   \<and> fst (Start_legacy (example_startup_legacy (Inr False))) \<noteq> None
   \<and> taskFetcher_Run \<notin> set (snd (Start_legacy (example_startup_legacy (Inr False))))"
proof -
  have a: "taskFetcher_Run \<in> set (snd (Start (example_startup (Inr True))))"
    "taskFetcher_Run \<in> set (snd (Start_legacy (example_startup_legacy (Inr True))))"
    by (simp_all add: Start_example Start_legacy_example)
  have b: "IsOperatorRegistered (example_startup (Inr False)) \<noteq> Inr True"
    "legacy_IsOperatorRegistered (example_startup_legacy (Inr False)) \<noteq> Inr True"
    by (simp_all add: example_startup_def example_startup_legacy_def)
  show ?thesis
    using a b
      Start_run_after_registration[of "example_startup (Inr True)"
        "example_startup_legacy (Inr True)"]
      Start_run_after_registration[of "example_startup (Inr False)"
        "example_startup_legacy (Inr False)"]
    by blast
qed

section \<open>Properties of the renewal loop\<close>

lemma checkNext_starts: "\<exists>evs. snd (checkNext a) = AttestValiditySeconds_called # evs"
  by (simp add: checkNext_def Let_def split: sum.splits)

lemma registerAttestationReport_events:
  "filter (\<lambda>e. e = AttestValiditySeconds_called) (snd (registerAttestationReport a pk)) = []"
  by (simp add: registerAttestationReport_def split: sum.splits option.splits)

lemma renewal_sleep_events:
  "filter (\<lambda>e. e = AttestValiditySeconds_called) (renewal_sleep d n) = []"
  by (simp add: renewal_sleep_def)

lemma checkNext_one_start:
  "length (filter (\<lambda>e. e = AttestValiditySeconds_called) (snd (checkNext a))) = 1"
  by (simp add: checkNext_def Let_def registerAttestationReport_events renewal_sleep_events
      split: sum.splits)

lemma renewal_loop_cycles:
  "length (filter (\<lambda>e. e = AttestValiditySeconds_called) (renewal_loop n as i)) = n"
  by (induction n arbitrary: i) (simp_all add: Let_def checkNext_one_start split: option.splits)

lemma renewal_loop_add:
  "renewal_loop (m + n) as i = renewal_loop m as i @ renewal_loop n as (i + m)"
  by (induction m arbitrary: i) (simp_all add: Let_def)

lemma renewal_loop_failure:
  assumes "fst (checkNext (as i)) = Some e"
  shows "\<exists>rest. renewal_loop (Suc (Suc n)) as i
                  = snd (checkNext (as i)) @ [LogError e, AttestValiditySeconds_called] @ rest"
proof -
  obtain evs where "snd (checkNext (as (Suc i))) = AttestValiditySeconds_called # evs"
    using checkNext_starts by blast
  then show ?thesis using assms by (simp add: Let_def)
qed

text \<open>
  C8. The renewal loop never ends a cycle without starting the next: its first \<open>n\<close>
  cycles all start, for every \<open>n\<close> and whatever fails in them. A cycle that fails, at
  whichever step, logs the error, and the next event is the first call of the next
  cycle, with no sleep between them. \<open>RegisterAttestationReport\<close> starts the loop as its
  last act and returns without waiting for it.
\<close>

theorem renewal_loop_restarts:
  "length (filter (\<lambda>e. e = AttestValiditySeconds_called) (renewal_loop n as i)) = n
   \<and> (fst (checkNext (as (i + m))) = Some e
        \<longrightarrow> (\<exists>rest. renewal_loop (m + Suc (Suc k)) as i
                        = renewal_loop m as i @ snd (checkNext (as (i + m)))
                          @ [LogError e, AttestValiditySeconds_called] @ rest))
   \<and> (fst (RegisterAttestationReport a) = None
        \<longrightarrow> last (snd (RegisterAttestationReport a)) = go_renewal_loop)"
proof -
  have 3: "fst (RegisterAttestationReport a) = None
        \<longrightarrow> last (snd (RegisterAttestationReport a)) = go_renewal_loop"
    by (auto simp: RegisterAttestationReport_def Let_def split: sum.splits option.splits)
  show ?thesis
    using renewal_loop_cycles[of n as i] renewal_loop_failure[of as "i + m" e k]
      renewal_loop_add[of m "Suc (Suc k)" as i] 3
    by auto
qed

lemma checkNext_error:
  "fst (checkNext a)
     = (case AttestValiditySeconds a of
          Inl e \<Rightarrow> Some e
        | Inr _ \<Rightarrow>
            (case AttestedProvers_Time a of
               Inl e \<Rightarrow> Some e
             | Inr _ \<Rightarrow> fst (registerAttestationReport a (PubKey_Serialize a))))"
  by (simp add: checkNext_def Let_def split: sum.splits)

lemma renewal_loop_example:
  "renewal_loop 2 failing_then_fine 0
     = [AttestValiditySeconds_called, LogError (Err ''rpc unreachable''),
        AttestValiditySeconds_called, AttestedProvers_called,
        SubmitLivenessProof_called [42], WaitTx_called 77]"
proof -
  have 0: "checkNext (failing_then_fine 0)
             = (Some (Err ''rpc unreachable''), [AttestValiditySeconds_called])"
    by (simp add: checkNext_def failing_then_fine_def example_attestation_def)
  have f: "AttestValiditySeconds (failing_then_fine (Suc 0)) = Inr 1000"
    "AttestedProvers_Time (failing_then_fine (Suc 0)) = Inr 1700000000"
    "time_Now_Unix (failing_then_fine (Suc 0)) = 1700000800"
    by (simp_all add: failing_then_fine_def example_attestation_def)
  have r: "registerAttestationReport (failing_then_fine (Suc 0)) pk
             = (None, [SubmitLivenessProof_called [42], WaitTx_called 77])" for pk
    by (simp add: failing_then_fine_def registerAttestationReport_example)
  have 1: "checkNext (failing_then_fine (Suc 0))
             = (None, [AttestValiditySeconds_called, AttestedProvers_called,
                       SubmitLivenessProof_called [42], WaitTx_called 77])"
    by (simp add: checkNext_def Let_def f r renewal_sleep_def Int64_def)
  have "renewal_loop 2 failing_then_fine 0
          = renewal_loop (Suc (Suc 0)) failing_then_fine 0"
    by (simp add: numeral_2_eq_2)
  then show ?thesis by (simp add: 0 1)
qed

theorem renewal_loop_restarts_witness:
  "fst (checkNext (failing_then_fine 0)) = Some (Err ''rpc unreachable'')
   \<and> renewal_loop 2 failing_then_fine 0
       = [AttestValiditySeconds_called, LogError (Err ''rpc unreachable''),
          AttestValiditySeconds_called, AttestedProvers_called,
          SubmitLivenessProof_called [42], WaitTx_called 77]
   \<and> length (filter (\<lambda>e. e = AttestValiditySeconds_called) (renewal_loop 2 failing_then_fine 0)) = 2
   \<and> fst (RegisterAttestationReport (example_attestation 1000 1700000000 1700000100)) = None
   \<and> last (snd (RegisterAttestationReport (example_attestation 1000 1700000000 1700000100)))
       = go_renewal_loop"
proof -
  have c: "fst (checkNext (failing_then_fine 0)) = Some (Err ''rpc unreachable'')"
    by (simp add: checkNext_error failing_then_fine_def example_attestation_def)
  have r: "fst (RegisterAttestationReport (example_attestation 1000 1700000000 1700000100)) = None"
    by (simp add: RegisterAttestationReport_example)
  show ?thesis
    using c r
      renewal_loop_restarts[of 2 failing_then_fine 0 0 "Err ''rpc unreachable''" 0
        "example_attestation 1000 1700000000 1700000100"]
    by (simp add: renewal_loop_example)
qed

section \<open>Properties of the scan cycle\<close>

lemma scan_target_NewOperator:
  "scan_target (NewOperator_LogTracerConfig secs) C H = min (C + 100) (H - 5)"
  "scan_target NewOperator_legacy_LogTracerConfig C H = min (C + 100) (H - 5)"
  by (simp_all add: scan_target_def NewOperator_LogTracerConfig_def
      NewOperator_legacy_LogTracerConfig_def)

lemma set_window_logs:
  "set (window_logs C target logs)
     = {l \<in> set logs. C < uint (BlockNumber l) \<and> uint (BlockNumber l) \<le> target}"
  by (simp add: window_logs_def)

lemma sorted_window_logs: "sorted (map log_key (window_logs C target logs))"
  by (simp add: window_logs_def)

lemma dispatch_window_no_checkpoint:
  "SetCheckpoint t \<notin> set (snd (dispatch_window skip h ls))"
  by (induction ls) (simp_all add: Let_def split: outcome.splits)

lemma dispatch_window_completed:
  "fst (dispatch_window skip h ls) = Completed
   \<Longrightarrow> dispatched (snd (dispatch_window skip h ls)) = ls
       \<and> returned (snd (dispatch_window skip h ls)) = length ls
       \<and> list_all (\<lambda>l. h l \<noteq> Panics) ls"
  by (induction ls) (auto simp: Let_def split: outcome.splits if_splits)

lemma dispatch_window_skip_tolerant:
  "list_all (\<lambda>l. h l \<noteq> Panics) ls \<Longrightarrow> fst (dispatch_window True h ls) = Completed"
  by (induction ls) (auto simp: Let_def split: outcome.splits)

lemma dispatch_window_strict:
  "fst (dispatch_window False h ls) = Completed
   \<longleftrightarrow> list_all (\<lambda>l. \<exists>effs. h l = Returns (None, effs)) ls"
  by (induction ls) (auto simp: Let_def split: outcome.splits)

lemma run_cycle_checkpoint:
  assumes "SetCheckpoint t \<in> set (snd (run_cycle cfg h C H logs))"
  shows "t = scan_target cfg C H \<and> C < t
         \<and> fst (run_cycle cfg h C H logs) = t
         \<and> fst (dispatch_window (cfg_SkipOnError cfg) h (window_logs C t logs)) = Completed
         \<and> snd (run_cycle cfg h C H logs)
             = snd (dispatch_window (cfg_SkipOnError cfg) h (window_logs C t logs))
               @ [SetCheckpoint t, SleepPoll]"
  using assms dispatch_window_no_checkpoint
  by (auto simp: run_cycle_def Let_def split: if_splits)

text \<open>
  C9. With the configuration that \<open>NewOperator\<close> passes to the tracer (window 100, lag 5,
  skip-tolerant) the scan target of a cycle is \<open>min (C + 100) (H - 5)\<close>, which is 155 for
  checkpoint 100 and head 160. The window's logs are the logs of blocks 101 to 155, in
  ascending (block, index) order. The checkpoint is set only to 155, as the last act
  before the sleep, after every log of the window was dispatched in that order and every
  handler call returned (with an error or not); and it is set whenever no handler call
  panics.
\<close>

theorem scan_cycle:
  "scan_target (NewOperator_LogTracerConfig secs) C H = min (C + 100) (H - 5)
   \<and> scan_target (NewOperator_LogTracerConfig secs) 100 160 = 155
   \<and> set (window_logs 100 155 logs)
       = {l \<in> set logs. 101 \<le> uint (BlockNumber l) \<and> uint (BlockNumber l) \<le> 155}
   \<and> sorted (map log_key (window_logs 100 155 logs))
   \<and> (SetCheckpoint t \<in> set (snd (run_cycle (NewOperator_LogTracerConfig secs) h 100 160 logs))
        \<longrightarrow> t = 155
            \<and> fst (run_cycle (NewOperator_LogTracerConfig secs) h 100 160 logs) = 155
            \<and> list_all (\<lambda>l. h l \<noteq> Panics) (window_logs 100 155 logs)
            \<and> snd (run_cycle (NewOperator_LogTracerConfig secs) h 100 160 logs)
                = snd (dispatch_window True h (window_logs 100 155 logs))
                  @ [SetCheckpoint 155, SleepPoll]
            \<and> dispatched (snd (dispatch_window True h (window_logs 100 155 logs)))
                = window_logs 100 155 logs
            \<and> returned (snd (dispatch_window True h (window_logs 100 155 logs)))
                = length (window_logs 100 155 logs))
   \<and> (list_all (\<lambda>l. h l \<noteq> Panics) (window_logs 100 155 logs)
        \<longrightarrow> fst (run_cycle (NewOperator_LogTracerConfig secs) h 100 160 logs) = 155
            \<and> SetCheckpoint 155
                \<in> set (snd (run_cycle (NewOperator_LogTracerConfig secs) h 100 160 logs)))"
proof -
  let ?cfg = "NewOperator_LogTracerConfig secs"
  let ?W = "window_logs 100 155 logs"
  have t: "scan_target ?cfg 100 160 = 155" by (simp add: scan_target_NewOperator)
  have s: "cfg_SkipOnError ?cfg = True" by (simp add: NewOperator_LogTracerConfig_def)
  have w: "set ?W = {l \<in> set logs. 101 \<le> uint (BlockNumber l) \<and> uint (BlockNumber l) \<le> 155}"
    by (auto simp: set_window_logs)
  have a: "t = 155
            \<and> fst (run_cycle ?cfg h 100 160 logs) = 155
            \<and> list_all (\<lambda>l. h l \<noteq> Panics) ?W
            \<and> snd (run_cycle ?cfg h 100 160 logs)
                = snd (dispatch_window True h ?W) @ [SetCheckpoint 155, SleepPoll]
            \<and> dispatched (snd (dispatch_window True h ?W)) = ?W
            \<and> returned (snd (dispatch_window True h ?W)) = length ?W"
    if "SetCheckpoint t \<in> set (snd (run_cycle ?cfg h 100 160 logs))"
  proof -
    note r = run_cycle_checkpoint[OF that, unfolded t s]
    then have t155: "t = 155" by blast
    have c: "fst (dispatch_window True h ?W) = Completed" using r unfolding t155 by blast
    show ?thesis using r dispatch_window_completed[OF c] unfolding t155 by blast
  qed
  have b: "fst (run_cycle ?cfg h 100 160 logs) = 155
            \<and> SetCheckpoint 155 \<in> set (snd (run_cycle ?cfg h 100 160 logs))"
    if "list_all (\<lambda>l. h l \<noteq> Panics) ?W"
    using dispatch_window_skip_tolerant[OF that]
    by (simp add: run_cycle_def t s)
  show ?thesis
    using scan_target_NewOperator(1)[of secs C H] t w sorted_window_logs[of 100 155 logs] a b
    by blast
qed

lemma window_logs_example:
  "window_logs 100 155 example_logs = [block_log 101 0, block_log 101 1, block_log 155 0]"
  by (simp add: window_logs_def example_logs_def block_log_def log_key_def)

lemma run_cycle_example:
  "run_cycle (NewOperator_LogTracerConfig 3) example_handler 100 160 example_logs
     = (155, [Dispatch (block_log 101 0), Returned None,
              Dispatch (block_log 101 1), Returned (Some (Err ''rejected'')),
              Dispatch (block_log 155 0), Returned None,
              SetCheckpoint 155, SleepPoll])"
proof -
  have t: "scan_target (NewOperator_LogTracerConfig 3) 100 160 = 155"
    by (simp add: scan_target_NewOperator)
  have s: "cfg_SkipOnError (NewOperator_LogTracerConfig 3) = True"
    by (simp add: NewOperator_LogTracerConfig_def)
  have h: "example_handler (block_log 101 0) = Returns (None, [])"
    "example_handler (block_log 101 1) = Returns (Some (Err ''rejected''), [])"
    "example_handler (block_log 101 (Suc 0)) = Returns (Some (Err ''rejected''), [])"
    "example_handler (block_log 155 0) = Returns (None, [])"
    by (simp_all add: example_handler_def block_log_def)
  show ?thesis
    by (simp add: run_cycle_def t s window_logs_example h Let_def)
qed

theorem scan_cycle_witness:
  "SetCheckpoint 155
     \<in> set (snd (run_cycle (NewOperator_LogTracerConfig 3) example_handler 100 160 example_logs))
   \<and> list_all (\<lambda>l. example_handler l \<noteq> Panics) (window_logs 100 155 example_logs)
   \<and> window_logs 100 155 example_logs = [block_log 101 0, block_log 101 1, block_log 155 0]
   \<and> run_cycle (NewOperator_LogTracerConfig 3) example_handler 100 160 example_logs
       = (155, [Dispatch (block_log 101 0), Returned None,
                Dispatch (block_log 101 1), Returned (Some (Err ''rejected'')),
                Dispatch (block_log 155 0), Returned None,
                SetCheckpoint 155, SleepPoll])
   \<and> dispatched (snd (dispatch_window True example_handler (window_logs 100 155 example_logs)))
       = [block_log 101 0, block_log 101 1, block_log 155 0]"
proof -
  have p: "list_all (\<lambda>l. example_handler l \<noteq> Panics) (window_logs 100 155 example_logs)"
    by (simp add: window_logs_example example_handler_def)
  have c: "SetCheckpoint 155
     \<in> set (snd (run_cycle (NewOperator_LogTracerConfig 3) example_handler 100 160 example_logs))"
    by (simp add: run_cycle_example)
  show ?thesis
    using p c scan_cycle[where secs = 3 and logs = example_logs and t = 155
        and h = example_handler and C = 100 and H = 160]
    by (simp add: run_cycle_example window_logs_example)
qed

end
